theory Spec2Isabelle
  imports Main "HOL-Library.AList"
begin

section \<open>The configuration document\<close>

text \<open>
  \<open>PicgoHelper\<close> reads and writes one configuration document (\<open>IConfig\<close>), a tree of
  plain JavaScript data. A plain object is the list of its own properties in insertion
  order; \<open>JUndefined\<close> is JavaScript's \<open>undefined\<close>, also the value of a property that
  is absent. Numbers are integers (the store only produces \<open>Date.now()\<close> timestamps).
  Inherited properties (\<open>toString\<close>, \<open>constructor\<close>, ...), the \<open>length\<close> and characters of
  a string, and JavaScript's placing of integer-like keys first are not part of the model.
\<close>

datatype jv =
    JUndefined
  | JNull
  | JBool bool
  | JNum int
  | JStr string
  | JArr "jv list"
  | JObj "(string \<times> jv) list"

text \<open>
  What a call can end in besides a value: a JavaScript \<open>TypeError\<close> (a property of
  \<open>null\<close>/\<open>undefined\<close>, a call of something that is not a function), a thrown
  \<open>Error(msg)\<close>, and \<open>Unmodelled\<close> where the program goes on with data this model has
  no value for (bracket paths, arrays used as path containers, \<open>__proto__\<close> keys).
\<close>

datatype error = TypeError | Error string | Unmodelled

definition bindE :: "error + 'a \<Rightarrow> ('a \<Rightarrow> error + 'b) \<Rightarrow> error + 'b" where
  "bindE m f = (case m of Inl e \<Rightarrow> Inl e | Inr x \<Rightarrow> f x)"

fun mapE :: "('a \<Rightarrow> error + 'b) \<Rightarrow> 'a list \<Rightarrow> error + 'b list" where
  "mapE f [] = Inr []"
| "mapE f (x # xs) = bindE (f x) (\<lambda>y. bindE (mapE f xs) (\<lambda>ys. Inr (y # ys)))"

text \<open>JavaScript truthiness (\<open>!x\<close>, \<open>x || y\<close>, \<open>if (x)\<close>).\<close>

fun truthy :: "jv \<Rightarrow> bool" where
  "truthy JUndefined = False"
| "truthy JNull = False"
| "truthy (JBool b) = b"
| "truthy (JNum n) = (n \<noteq> 0)"
| "truthy (JStr s) = (s \<noteq> [])"
| "truthy (JArr xs) = True"
| "truthy (JObj ps) = True"

text \<open>
  \<open>a === b\<close>: equality of primitives. Two objects are equal only when they are the same
  reference; an id handed in by a caller is never the object stored under \<open>_id\<close>.
\<close>

fun strictEq :: "jv \<Rightarrow> jv \<Rightarrow> bool" where
  "strictEq (JArr xs) b = False"
| "strictEq (JObj ps) b = False"
| "strictEq a b = (a = b)"

text \<open>An array index as a property key: \<open>0\<close>, or decimal digits without a leading zero.\<close>

definition digitOf :: "char \<Rightarrow> nat option" where
  "digitOf c = (if c \<in> set ''0123456789'' then Some (of_char c - 48) else None)"

fun indexValue :: "nat \<Rightarrow> string \<Rightarrow> nat option" where
  "indexValue acc [] = Some acc"
| "indexValue acc (c # cs) =
     (case digitOf c of None \<Rightarrow> None | Some d \<Rightarrow> indexValue (10 * acc + d) cs)"

definition arrayIndex :: "string \<Rightarrow> nat option" where
  "arrayIndex k =
     (if k = [] \<or> (hd k = CHR ''0'' \<and> tl k \<noteq> []) then None else indexValue 0 k)"

text \<open>\<open>v[k]\<close> where it cannot throw (the walk of lodash's \<open>get\<close>, a value known to be set).\<close>

definition own :: "jv \<Rightarrow> string \<Rightarrow> jv" where
  "own v k =
     (case v of
        JObj ps \<Rightarrow> (case map_of ps k of Some x \<Rightarrow> x | None \<Rightarrow> JUndefined)
      | JArr xs \<Rightarrow>
          (case arrayIndex k of
             Some i \<Rightarrow> (if i < length xs then xs ! i else JUndefined)
           | None \<Rightarrow> (if k = ''length'' then JNum (int (length xs)) else JUndefined))
      | _ \<Rightarrow> JUndefined)"

text \<open>\<open>v.k\<close> in the program text: a \<open>TypeError\<close> on \<open>null\<close> and \<open>undefined\<close>.\<close>

definition member :: "jv \<Rightarrow> string \<Rightarrow> error + jv" where
  "member v k = (if v = JUndefined \<or> v = JNull then Inl TypeError else Inr (own v k))"

text \<open>
  \<open>Object.assign(target, source)\<close> on plain objects: the source's properties in order, each
  replacing the target's property of that name in place or added at the end.
\<close>

definition objectAssign :: "(string \<times> jv) list \<Rightarrow> (string \<times> jv) list \<Rightarrow> (string \<times> jv) list" where
  "objectAssign target source = fold (\<lambda>(k, v). AList.update k v) source target"

section \<open>lodash \<open>get\<close> and \<open>set\<close> on dotted paths\<close>

text \<open>
  The document is addressed by dotted paths (\<open>_.get\<close>, \<open>_.set\<close> of lodash, an external
  library). A path is split at every \<open>.\<close>; lodash's bracket syntax, and its shortcut of
  taking a whole dotted string as one key when the object has a property of that very
  name, are \<open>Unmodelled\<close>.
\<close>

fun splitDots :: "string \<Rightarrow> string list" where
  "splitDots [] = [[]]"
| "splitDots (c # cs) =
     (if c = CHR ''.'' then [] # splitDots cs
      else (case splitDots cs of [] \<Rightarrow> [[c]] | w # ws \<Rightarrow> (c # w) # ws))"

definition hasOwn :: "jv \<Rightarrow> string \<Rightarrow> bool" where
  "hasOwn v k = (case v of JObj ps \<Rightarrow> map_of ps k \<noteq> None | _ \<Rightarrow> False)"

definition castPath :: "jv \<Rightarrow> string \<Rightarrow> error + string list" where
  "castPath obj path =
     (if CHR ''['' \<in> set path \<or> CHR '']'' \<in> set path then Inl Unmodelled
      else if CHR ''.'' \<in> set path \<and> hasOwn obj path then Inl Unmodelled
      else Inr (splitDots path))"

text \<open>\<open>baseGet\<close>: follow the keys while the current value is neither \<open>null\<close> nor \<open>undefined\<close>.\<close>

fun baseGet :: "jv \<Rightarrow> string list \<Rightarrow> jv" where
  "baseGet v [] = v"
| "baseGet v (k # ks) = (if v = JUndefined \<or> v = JNull then JUndefined else baseGet (own v k) ks)"

definition lodash_get :: "jv \<Rightarrow> string \<Rightarrow> jv \<Rightarrow> error + jv" where
  "lodash_get obj path dflt =
     bindE (castPath obj path)
       (\<lambda>ks. let r = baseGet obj ks in Inr (if r = JUndefined then dflt else r))"

text \<open>
  \<open>baseSet\<close>: walk the path from an object, keep a value on the way that is an object,
  replace any other by a new \<open>{}\<close>, and assign the last key. lodash leaves the keys
  \<open>__proto__\<close>, \<open>constructor\<close> and \<open>prototype\<close> unassigned, creates an array where the next
  key is an index, and assigns into arrays on the way: all three are \<open>Unmodelled\<close>.
\<close>

definition unsafeKey :: "string \<Rightarrow> bool" where
  "unsafeKey k = (k = ''__proto__'' \<or> k = ''constructor'' \<or> k = ''prototype'')"

fun assignPath :: "(string \<times> jv) list \<Rightarrow> string list \<Rightarrow> jv \<Rightarrow> error + (string \<times> jv) list" where
  "assignPath ps [] v = Inr ps"
| "assignPath ps [k] v = (if unsafeKey k then Inl Unmodelled else Inr (AList.update k v ps))"
| "assignPath ps (k # k' # ks) v =
     (if unsafeKey k then Inl Unmodelled
      else (case own (JObj ps) k of
              JObj qs \<Rightarrow>
                bindE (assignPath qs (k' # ks) v) (\<lambda>qs'. Inr (AList.update k (JObj qs') ps))
            | JArr xs \<Rightarrow> Inl Unmodelled
            | _ \<Rightarrow>
                (if arrayIndex k' \<noteq> None then Inl Unmodelled
                 else bindE (assignPath [] (k' # ks) v)
                        (\<lambda>qs'. Inr (AList.update k (JObj qs') ps)))))"

definition lodash_set :: "jv \<Rightarrow> string \<Rightarrow> jv \<Rightarrow> error + jv" where
  "lodash_set obj path v =
     (case obj of
        JObj ps \<Rightarrow>
          bindE (castPath obj path) (\<lambda>ks. bindE (assignPath ps ks v) (\<lambda>ps'. Inr (JObj ps')))
      | JArr xs \<Rightarrow> Inl Unmodelled
      | _ \<Rightarrow> Inr obj)"

section \<open>The helper and its collaborators\<close>

text \<open>
  What \<open>PicgoHelper\<close> is given from outside. \<open>IdUtil.newUuid()\<close> and \<open>Date.now()\<close> are
  read through call counters: \<open>newUuid e n\<close> is the identifier returned by the \<open>n\<close>-th
  call. \<open>trimValues\<close> (utils, not among the sources) takes any value and returns a plain
  object. \<open>uploaderIdList\<close> and \<open>uploaderGet\<close> are \<open>ctx.helper.uploader.getIdList()\<close> and
  \<open>ctx.helper.uploader.get(id)\<close>. \<open>arraySort\<close> is \<open>Array.prototype.sort\<close> of the
  JavaScript engine, given the comparison function.
\<close>

record env =
  newUuid :: "nat \<Rightarrow> string"
  dateNow :: "nat \<Rightarrow> int"
  trimValues :: "jv \<Rightarrow> (string \<times> jv) list"
  uploaderIdList :: "string list"
  uploaderGet :: "string \<Rightarrow> jv"
  arraySort :: "(jv \<Rightarrow> jv \<Rightarrow> int) \<Rightarrow> jv list \<Rightarrow> jv list"

text \<open>
  The mutable state: the reactive configuration document, the \<open>CONFIG_CHANGE\<close> events
  emitted on \<open>picgoEventBus\<close> so far (oldest first, each \<open>(configName, value)\<close>), and the
  number of calls made to \<open>newUuid\<close> and to \<open>Date.now\<close>.
\<close>

record helper =
  reactiveCfg :: jv
  emitted :: "(string \<times> jv) list"
  uuidCalls :: nat
  nowCalls :: nat

text \<open>
  The constructor: \<open>ctx\<close> is an object or absent, the configuration any value; an absent
  one throws before any field is set. The field \<open>readonlyCfg = readonly(reactiveCfg)\<close> is
  the same document behind Vue's read-only proxy, so it is no field of its own here; what
  reading through it means for a later write is said at \<open>upgradeUploaderConfig\<close>.
\<close>

definition construct :: "'c option \<Rightarrow> jv \<Rightarrow> error + ('c \<times> helper)" where
  "construct ctx cfg =
     (case ctx of
        None \<Rightarrow> Inl (Error ''PicGo ctx cannot be null'')
      | Some c \<Rightarrow>
          (if \<not> truthy cfg then Inl (Error ''PicGo reactive config cannot be null'')
           else Inr (c, \<lparr>reactiveCfg = cfg, emitted = [], uuidCalls = 0, nowCalls = 0\<rparr>)))"

text \<open>
  Modelled from the spec: \<open>getRawData\<close> (utils, not among the sources) strips the reactive
  proxies from a value before it is saved ("ensure raw for save"); the data is the same,
  so on values it is the identity.
\<close>

definition getRawData :: "jv \<Rightarrow> jv" where
  "getRawData v = v"

definition getPicgoConfig :: "helper \<Rightarrow> string \<Rightarrow> jv \<Rightarrow> error + jv" where
  "getPicgoConfig h key dflt =
     (if key = [] then Inr (reactiveCfg h) else lodash_get (reactiveCfg h) key dflt)"

text \<open>
  \<open>savePicgoConfig\<close>: for each key of the patch, in \<open>Object.keys\<close> order, set the path and
  emit one \<open>CONFIG_CHANGE\<close> event. A patch is a plain object, written as the list of its
  properties in \<open>Object.keys\<close> order; an absent patch is only warned about.
\<close>

fun saveEach :: "helper \<Rightarrow> jv \<Rightarrow> string list \<Rightarrow> error + helper" where
  "saveEach h rawCfg [] = Inr h"
| "saveEach h rawCfg (name # names) =
     bindE (lodash_set (reactiveCfg h) name (own rawCfg name))
       (\<lambda>d. saveEach (h\<lparr>reactiveCfg := d, emitted := emitted h @ [(name, own rawCfg name)]\<rparr>)
               rawCfg names)"

definition savePicgoConfig :: "helper \<Rightarrow> jv \<Rightarrow> error + helper" where
  "savePicgoConfig h cfg =
     (if \<not> truthy cfg then Inr h
      else (case cfg of
              JObj ps \<Rightarrow> saveEach h (getRawData cfg) (map fst ps)
            | _ \<Rightarrow> Inl Unmodelled))"

section \<open>Backend types\<close>

text \<open>The comparison function handed to \<open>sort\<close>: it looks at its first argument only.\<close>

definition githubFirst :: "jv \<Rightarrow> jv \<Rightarrow> int" where
  "githubFirst a b = (if strictEq (own a ''type'') (JStr ''github'') then - 1 else 0)"

fun findByType :: "jv list \<Rightarrow> string \<Rightarrow> error + jv" where
  "findByType [] item = Inr JUndefined"
| "findByType (i # is) item =
     bindE (member i ''type'')
       (\<lambda>t. if strictEq t (JStr item) then Inr i else findByType is item)"

definition picBedEntry :: "env \<Rightarrow> jv \<Rightarrow> string \<Rightarrow> error + jv" where
  "picBedEntry e picBedFromDB item =
     bindE (case picBedFromDB of JArr is \<Rightarrow> findByType is item | _ \<Rightarrow> Inl TypeError)
       (\<lambda>visible.
          bindE (member (uploaderGet e item) ''name'')
            (\<lambda>nm. Inr (JObj [(''type'', JStr item),
                              (''name'', if truthy nm then nm else JStr item),
                              (''visible'', if truthy visible then own visible ''visible''
                                            else JBool True)])))"

definition getPicBeds :: "env \<Rightarrow> helper \<Rightarrow> error + jv list" where
  "getPicBeds e h =
     bindE (getPicgoConfig h ''picBed.list'' JUndefined)
       (\<lambda>l. let picBedFromDB = (if truthy l then l else JArr []) in
            bindE (mapE (picBedEntry e picBedFromDB) (uploaderIdList e))
              (\<lambda>picBeds. Inr (arraySort e githubFirst picBeds)))"

definition getVisiablePicBeds :: "env \<Rightarrow> helper \<Rightarrow> error + jv list" where
  "getVisiablePicBeds e h =
     bindE (getPicBeds e h)
       (\<lambda>picBeds.
          bindE (mapE (\<lambda>item. bindE (member item ''visible'')
                                (\<lambda>v. Inr (if truthy v then item else JNull))) picBeds)
            (\<lambda>mapped.
               let visiablePicBeds = filter truthy mapped in
               Inr (if length visiablePicBeds = 0
                    then visiablePicBeds @ [JObj [(''type'', JStr ''smms''), (''name'', JStr ''SM.MS'')]]
                    else visiablePicBeds)))"

section \<open>Uploader configuration profiles\<close>

text \<open>
  \<open>completeUploaderMetaConfig\<close>: \<open>Object.assign({_configName: "Default"}, trimValues(originData),
  {_id: newUuid(), _createdAt: Date.now(), _updatedAt: Date.now()})\<close>.
\<close>

definition completeUploaderMetaConfig :: "env \<Rightarrow> helper \<Rightarrow> jv \<Rightarrow> (string \<times> jv) list \<times> helper" where
  "completeUploaderMetaConfig e h originData =
     (objectAssign
        (objectAssign [(''_configName'', JStr ''Default'')] (trimValues e originData))
        [(''_id'', JStr (newUuid e (uuidCalls h))),
         (''_createdAt'', JNum (dateNow e (nowCalls h))),
         (''_updatedAt'', JNum (dateNow e (nowCalls h + 1)))],
      h\<lparr>uuidCalls := uuidCalls h + 1, nowCalls := nowCalls h + 2\<rparr>)"

text \<open>
  \<open>upgradeUploaderConfig\<close>. \<open>getPicgoConfig\<close> reads through \<open>readonly(reactiveCfg)\<close>, Vue's
  deep read-only proxy: a value found in the document comes back as a read-only proxy, and
  a write through such a proxy is discarded (Vue: "mutating the copy will fail and result
  in a warning"; nothing is thrown), so
  \<open>Object.assign(uploaderConfig, ...)\<close> changes \<open>uploaderConfig\<close> only when it is the
  default \<open>{}\<close> the caller passed, which is the case exactly when the path holds
  \<open>undefined\<close>. The meta data is computed (an id and two timestamps are drawn) before the
  assignment either way. A stored primitive is \<open>Unmodelled\<close>.
\<close>

definition upgradeUploaderConfig :: "env \<Rightarrow> helper \<Rightarrow> string \<Rightarrow> error + (jv \<times> helper)" where
  "upgradeUploaderConfig e h type =
     bindE (getPicgoConfig h (''picBed.'' @ type) JUndefined)
       (\<lambda>stored.
          bindE (getPicgoConfig h (''picBed.'' @ type) (JObj []))
            (\<lambda>uploaderConfig.
               bindE (member uploaderConfig ''_id'')
                 (\<lambda>i.
                    bindE (if \<not> truthy i
                           then (let (meta, h1) = completeUploaderMetaConfig e h uploaderConfig in
                                 if stored = JUndefined then Inr (JObj (objectAssign [] meta), h1)
                                 else (case uploaderConfig of
                                         JObj ps \<Rightarrow> Inr (uploaderConfig, h1)
                                       | JArr xs \<Rightarrow> Inr (uploaderConfig, h1)
                                       | _ \<Rightarrow> Inl Unmodelled))
                           else Inr (uploaderConfig, h))
                      (\<lambda>(uploaderConfig, h1).
                         let uploaderConfigList = JArr [uploaderConfig] in
                         bindE (savePicgoConfig h1
                                  (JObj [(''uploader.'' @ type,
                                          JObj [(''configList'', uploaderConfigList),
                                                (''defaultId'', own uploaderConfig ''_id'')]),
                                         (''picBed.'' @ type, uploaderConfig)]))
                           (\<lambda>h2. Inr (JObj [(''configList'', uploaderConfigList),
                                             (''defaultId'', own uploaderConfig ''_id'')], h2))))))"

definition getUploaderConfigList :: "env \<Rightarrow> helper \<Rightarrow> string \<Rightarrow> error + (jv \<times> helper)" where
  "getUploaderConfigList e h type =
     (if type = [] then Inr (JObj [(''configList'', JArr []), (''defaultId'', JStr [])], h)
      else
        bindE (getPicgoConfig h (''uploader.'' @ type) (JObj []))
          (\<lambda>currentUploaderConfig.
             bindE (member currentUploaderConfig ''configList'')
               (\<lambda>configList.
                  let d = own currentUploaderConfig ''defaultId'';
                      defaultId = (if truthy d then d else JStr [])
                  in if \<not> truthy configList
                     then bindE (upgradeUploaderConfig e h type)
                            (\<lambda>(res, h1). Inr (JObj [(''configList'', own res ''configList''),
                                                     (''defaultId'', own res ''defaultId'')], h1))
                     else Inr (JObj [(''configList'', configList), (''defaultId'', defaultId)], h))))"

text \<open>\<open>configList.find(item => item._id === id)\<close>; \<open>undefined\<close> when nothing matches.\<close>

fun findById :: "jv list \<Rightarrow> jv \<Rightarrow> error + jv" where
  "findById [] pid = Inr JUndefined"
| "findById (item # items) pid =
     bindE (member item ''_id'') (\<lambda>i. if strictEq i pid then Inr item else findById items pid)"

definition arrayFindById :: "jv \<Rightarrow> jv \<Rightarrow> error + jv" where
  "arrayFindById configList pid =
     (case configList of JArr items \<Rightarrow> findById items pid | _ \<Rightarrow> Inl TypeError)"

definition selectUploaderConfig :: "env \<Rightarrow> helper \<Rightarrow> string \<Rightarrow> jv \<Rightarrow> error + (jv \<times> helper)" where
  "selectUploaderConfig e h type pid =
     bindE (getUploaderConfigList e h type)
       (\<lambda>(r, h1).
          bindE (arrayFindById (own r ''configList'') pid)
            (\<lambda>config.
               if truthy config
               then bindE (savePicgoConfig h1
                             (JObj [(''uploader.'' @ type @ ''.defaultId'', pid),
                                    (''picBed.'' @ type, config)]))
                      (\<lambda>h2. Inr (config, h2))
               else Inr (config, h1)))"

definition setDefaultPicBed :: "helper \<Rightarrow> string \<Rightarrow> error + helper" where
  "setDefaultPicBed h type =
     savePicgoConfig h (JObj [(''picBed.current'', JStr type), (''picBed.uploader'', JStr type)])"

text \<open>
  In \<open>updateUploaderConfig\<close> the object found is changed in place by \<open>Object.assign\<close>; it
  is an element of the list that is saved, so the saved list holds the changed object at
  the place of the first match (\<open>replaceFound\<close>).
\<close>

fun replaceFound :: "jv list \<Rightarrow> jv \<Rightarrow> jv \<Rightarrow> jv list" where
  "replaceFound [] pid new = []"
| "replaceFound (item # items) pid new =
     (if strictEq (own item ''_id'') pid then new # items else item # replaceFound items pid new)"

definition updateUploaderConfig :: "env \<Rightarrow> helper \<Rightarrow> string \<Rightarrow> jv \<Rightarrow> jv \<Rightarrow> error + helper" where
  "updateUploaderConfig e h type pid config0 =
     (let config = getRawData config0 in
      bindE (getUploaderConfigList e h type)
        (\<lambda>(uploaderConfig, h1).
           let configList = getRawData (own uploaderConfig ''configList'');
               defaultId = own uploaderConfig ''ddefaultId''
           in bindE (arrayFindById configList pid)
                (\<lambda>existConfig.
                   case configList of
                     JArr items \<Rightarrow>
                       (if truthy existConfig
                        then (case existConfig of
                                JObj ps \<Rightarrow>
                                  (let updatedConfig =
                                         JObj (objectAssign (objectAssign ps (trimValues e config))
                                                 [(''_updatedAt'', JNum (dateNow e (nowCalls h1)))]);
                                       h2 = h1\<lparr>nowCalls := nowCalls h1 + 1\<rparr>
                                   in savePicgoConfig h2
                                        (JObj [(''uploader.'' @ type @ ''.configList'',
                                                JArr (replaceFound items pid updatedConfig)),
                                               (''uploader.'' @ type @ ''.defaultId'', defaultId),
                                               (''picBed.'' @ type, updatedConfig)]))
                              | _ \<Rightarrow> Inl Unmodelled)
                        else (let (meta, h2) = completeUploaderMetaConfig e h1 config;
                                  updatedConfig = JObj meta;
                                  updatedDefaultId = own updatedConfig ''_id''
                              in savePicgoConfig h2
                                   (JObj [(''uploader.'' @ type @ ''.configList'',
                                           JArr (items @ [updatedConfig])),
                                          (''uploader.'' @ type @ ''.defaultId'', updatedDefaultId),
                                          (''picBed.'' @ type, updatedConfig)])))
                   | _ \<Rightarrow> Inl TypeError)))"

text \<open>\<open>changeCurrentUploader\<close> (private).\<close>

definition changeCurrentUploader :: "helper \<Rightarrow> string \<Rightarrow> jv \<Rightarrow> jv \<Rightarrow> error + helper" where
  "changeCurrentUploader h type config pid =
     (if type = [] then Inr h
      else
        bindE (if truthy pid
               then savePicgoConfig h (JObj [(''uploader.'' @ type @ ''.defaultId'', pid)])
               else Inr h)
          (\<lambda>h1.
             bindE (if truthy config
                    then savePicgoConfig h1 (JObj [(''picBed.'' @ type, config)])
                    else Inr h1)
               (\<lambda>h2. savePicgoConfig h2
                        (JObj [(''picBed.current'', JStr type), (''picBed.uploader'', JStr type)]))))"

text \<open>\<open>configList.filter(item => item._id !== id)\<close>.\<close>

fun filterNotId :: "jv list \<Rightarrow> jv \<Rightarrow> error + jv list" where
  "filterNotId [] pid = Inr []"
| "filterNotId (item # items) pid =
     bindE (member item ''_id'')
       (\<lambda>i. bindE (filterNotId items pid)
              (\<lambda>rest. Inr (if strictEq i pid then rest else item # rest)))"

definition firstOf :: "jv list \<Rightarrow> jv" where
  "firstOf xs = (case xs of [] \<Rightarrow> JUndefined | x # _ \<Rightarrow> x)"

text \<open>
  \<open>deleteUploaderConfig\<close>; the result is \<open>undefined\<close> (nothing deleted) or
  \<open>{configList, defaultId}\<close>. A \<open>configList\<close> that is not an array is \<open>Unmodelled\<close>.
\<close>

definition deleteUploaderConfig :: "env \<Rightarrow> helper \<Rightarrow> string \<Rightarrow> jv \<Rightarrow> error + (jv \<times> helper)" where
  "deleteUploaderConfig e h type pid =
     bindE (getUploaderConfigList e h type)
       (\<lambda>(uploaderConfig, h1).
          let configList = getRawData (own uploaderConfig ''configList'');
              defaultId = own uploaderConfig ''ddefaultId''
          in case configList of
               JArr items \<Rightarrow>
                 (if length items \<le> 1 then Inr (JUndefined, h1)
                  else
                    bindE (filterNotId items pid)
                      (\<lambda>updatedConfigList.
                         bindE (if strictEq pid defaultId
                                then bindE (member (firstOf updatedConfigList) ''_id'')
                                       (\<lambda>newId.
                                          bindE (changeCurrentUploader h1 type
                                                   (firstOf updatedConfigList) newId)
                                            (\<lambda>h2. Inr (newId, h2)))
                                else Inr (defaultId, h1))
                           (\<lambda>(newDefaultId, h2).
                              bindE (savePicgoConfig h2
                                       (JObj [(''uploader.'' @ type @ ''.configList'',
                                               JArr updatedConfigList)]))
                                (\<lambda>h3. Inr (JObj [(''configList'', JArr updatedConfigList),
                                                  (''defaultId'', newDefaultId)], h3)))))
             | _ \<Rightarrow> Inl Unmodelled)"

text \<open>
  A run of \<open>updateUploaderConfig\<close> calls on one type, each call given as \<open>(id, config)\<close>,
  and the profiles that \<open>completeUploaderMetaConfig\<close> makes of a list of configs when the
  first of them gets the \<open>u\<close>-th identifier and the \<open>n\<close>-th and next timestamps.
\<close>

definition profileAt :: "env \<Rightarrow> nat \<Rightarrow> nat \<Rightarrow> jv \<Rightarrow> jv" where
  "profileAt e u n config =
     JObj (objectAssign
             (objectAssign [(''_configName'', JStr ''Default'')] (trimValues e config))
             [(''_id'', JStr (newUuid e u)),
              (''_createdAt'', JNum (dateNow e n)),
              (''_updatedAt'', JNum (dateNow e (n + 1)))])"

fun newProfiles :: "env \<Rightarrow> nat \<Rightarrow> nat \<Rightarrow> jv list \<Rightarrow> jv list" where
  "newProfiles e u n [] = []"
| "newProfiles e u n (config # configs) = profileAt e u n config # newProfiles e (u + 1) (n + 2) configs"

fun updateAll :: "env \<Rightarrow> helper \<Rightarrow> string \<Rightarrow> (jv \<times> jv) list \<Rightarrow> error + helper" where
  "updateAll e h type [] = Inr h"
| "updateAll e h type ((pid, config) # calls) =
     bindE (updateUploaderConfig e h type pid config) (\<lambda>h1. updateAll e h1 type calls)"

section \<open>Paths that part ways, and example data\<close>

text \<open>
  Two key lists diverge when they differ at some position before either ends: then neither
  addresses a value inside the other's.
\<close>

fun diverge :: "string list \<Rightarrow> string list \<Rightarrow> bool" where
  "diverge (a # as) (b # bs) = (if a = b then diverge as bs else True)"
| "diverge _ _ = False"

text \<open>
  The paths this model follows to the end. A key is plain when lodash assigns it (it is
  none of \<open>__proto__\<close>, \<open>constructor\<close>, \<open>prototype\<close>) and it is no array index; a path
  is plain when it has no bracket and all its keys are plain; a document is plain at the
  top when none of its own property names contains a dot, so that no dotted path is taken
  for one key. The way of a key list is clear in a document when no array stands where
  \<open>set\<close> has to pass: each value met before the last key is an object, or is absent or a
  primitive, which \<open>set\<close> replaces by a new object. One key list is a proper prefix of
  another when the other goes on below it, and the paths of a patch are in order when none
  is a proper prefix of a later one: then no path goes through a value that an earlier
  path of the same patch has set.
\<close>

definition plainKey :: "string \<Rightarrow> bool" where
  "plainKey k = (\<not> unsafeKey k \<and> arrayIndex k = None)"

definition plainPath :: "string \<Rightarrow> bool" where
  "plainPath p =
     (CHR ''['' \<notin> set p \<and> CHR '']'' \<notin> set p \<and> list_all plainKey (splitDots p))"

definition plainTop :: "(string \<times> jv) list \<Rightarrow> bool" where
  "plainTop ps = list_all (\<lambda>k. CHR ''.'' \<notin> set k) (map fst ps)"

fun wayClear :: "(string \<times> jv) list \<Rightarrow> string list \<Rightarrow> bool" where
  "wayClear ps (k # k' # ks) =
     (case own (JObj ps) k of JObj qs \<Rightarrow> wayClear qs (k' # ks) | JArr xs \<Rightarrow> False | _ \<Rightarrow> True)"
| "wayClear ps ks = True"

fun properPrefix :: "string list \<Rightarrow> string list \<Rightarrow> bool" where
  "properPrefix [] (b # bs) = True"
| "properPrefix (a # as) (b # bs) = (a = b \<and> properPrefix as bs)"
| "properPrefix as [] = False"

fun inOrder :: "string list list \<Rightarrow> bool" where
  "inOrder [] = True"
| "inOrder (p # ps) = (list_all (\<lambda>q. \<not> properPrefix p q) ps \<and> inOrder ps)"

text \<open>
  Concrete collaborators and a helper on an empty document, for the worked examples: the
  \<open>n\<close>-th identifier is \<open>uuid-\<close> followed by \<open>n\<close> letters \<open>x\<close>, the clock advances by one per
  call, \<open>trimValues\<close> returns the properties of an object as they are, two backend types are
  registered, and \<open>sort\<close> leaves the order alone.
\<close>

definition exampleEnv :: env where
  "exampleEnv =
     \<lparr>newUuid = (\<lambda>n. ''uuid-'' @ replicate n CHR ''x''),
      dateNow = (\<lambda>n. 1000 + int n),
      trimValues = (\<lambda>v. case v of JObj ps \<Rightarrow> ps | _ \<Rightarrow> []),
      uploaderIdList = [''smms'', ''github''],
      uploaderGet = (\<lambda>k. JObj [(''name'', JStr k)]),
      arraySort = (\<lambda>f xs. xs)\<rparr>"

definition emptyHelper :: helper where
  "emptyHelper = \<lparr>reactiveCfg = JObj [], emitted = [], uuidCalls = 0, nowCalls = 0\<rparr>"

text \<open>
  A helper whose stored visibility list hides both registered backend types, and one
  with two saved \<open>github\<close> profiles of which \<open>a\<close> is the default and the active one.
\<close>

definition hiddenHelper :: helper where
  "hiddenHelper =
     \<lparr>reactiveCfg = JObj [(''picBed'', JObj [(''list'',
         JArr [JObj [(''type'', JStr ''smms''), (''visible'', JBool False)],
               JObj [(''type'', JStr ''github''), (''visible'', JBool False)]])])],
      emitted = [], uuidCalls = 0, nowCalls = 0\<rparr>"

definition twoProfiles :: helper where
  "twoProfiles =
     \<lparr>reactiveCfg = JObj [(''uploader'', JObj [(''github'',
         JObj [(''configList'', JArr [JObj [(''_id'', JStr ''a''), (''repo'', JStr ''r1'')],
                                      JObj [(''_id'', JStr ''b''), (''repo'', JStr ''r2'')]]),
               (''defaultId'', JStr ''a'')])]),
        (''picBed'', JObj [(''github'', JObj [(''_id'', JStr ''a''), (''repo'', JStr ''r1'')])])],
      emitted = [], uuidCalls = 0, nowCalls = 0\<rparr>"

text \<open>
  The state \<open>twoProfiles\<close> is in after a third profile \<open>{repo: "r3"}\<close> has been added
  with the collaborators of \<open>exampleEnv\<close>.
\<close>

definition threeProfiles :: helper where
  "threeProfiles =
     \<lparr>reactiveCfg = JObj [(''uploader'', JObj [(''github'',
         JObj [(''configList'', JArr [JObj [(''_id'', JStr ''a''), (''repo'', JStr ''r1'')],
                                      JObj [(''_id'', JStr ''b''), (''repo'', JStr ''r2'')],
                                      JObj [(''_configName'', JStr ''Default''), (''repo'', JStr ''r3''),
                                            (''_id'', JStr ''uuid-''), (''_createdAt'', JNum 1000),
                                            (''_updatedAt'', JNum 1001)]]),
               (''defaultId'', JStr ''uuid-'')])]),
        (''picBed'', JObj [(''github'', JObj [(''_configName'', JStr ''Default''), (''repo'', JStr ''r3''),
                                            (''_id'', JStr ''uuid-''), (''_createdAt'', JNum 1000),
                                            (''_updatedAt'', JNum 1001)])])],
      emitted =
        [(''uploader.github.configList'',
          JArr [JObj [(''_id'', JStr ''a''), (''repo'', JStr ''r1'')],
                JObj [(''_id'', JStr ''b''), (''repo'', JStr ''r2'')],
                JObj [(''_configName'', JStr ''Default''), (''repo'', JStr ''r3''),
                      (''_id'', JStr ''uuid-''), (''_createdAt'', JNum 1000),
                      (''_updatedAt'', JNum 1001)]]),
         (''uploader.github.defaultId'', JStr ''uuid-''),
         (''picBed.github'', JObj [(''_configName'', JStr ''Default''), (''repo'', JStr ''r3''),
                                  (''_id'', JStr ''uuid-''), (''_createdAt'', JNum 1000),
                                  (''_updatedAt'', JNum 1001)])],
      uuidCalls = 1, nowCalls = 2\<rparr>"

text \<open>
  Two helpers that hold only a legacy single-object setting under \<open>picBed.github\<close>, one
  without and one with an \<open>_id\<close>.
\<close>

definition legacyHelper :: helper where
  "legacyHelper =
     \<lparr>reactiveCfg = JObj [(''picBed'', JObj [(''github'', JObj [(''repo'', JStr ''r''), (''token'', JStr ''t'')])])],
      emitted = [], uuidCalls = 0, nowCalls = 0\<rparr>"

definition legacyWithId :: helper where
  "legacyWithId =
     \<lparr>reactiveCfg = JObj [(''picBed'', JObj [(''github'', JObj [(''_id'', JStr ''old''), (''repo'', JStr ''r'')])])],
      emitted = [], uuidCalls = 0, nowCalls = 0\<rparr>"

text \<open>
  The spec's invariant on one \<open>UploaderTypeConfig\<close>, in its words: when \<open>configList\<close> is
  not empty, \<open>defaultId\<close> is the \<open>_id\<close> of exactly one of its entries.
\<close>

definition defaultIdMatches :: "jv \<Rightarrow> bool" where
  "defaultIdMatches c =
     (case own c ''configList'' of
        JArr items \<Rightarrow>
          items = [] \<or> length (filter (\<lambda>item. strictEq (own item ''_id'') (own c ''defaultId'')) items) = 1
      | _ \<Rightarrow> True)"

text \<open>
  Two ways in which the \<open>sort\<close> of an engine inserts the elements of a short array, one
  after the other, into the part already sorted (held here with its last element first).
  \<open>sortLaterFirst\<close> hands the comparison function the element and then an element before
  it, and moves the element forward while the answer is negative: the order of arguments
  of V8's insertion step. \<open>sortEarlierFirst\<close> hands it an element before and then the
  element, and moves the element forward while the answer is positive: the order of
  arguments of V8's insertion sort before its version 7.0.
\<close>

fun insertLater :: "(jv \<Rightarrow> jv \<Rightarrow> int) \<Rightarrow> jv \<Rightarrow> jv list \<Rightarrow> jv list" where
  "insertLater cmp x [] = [x]"
| "insertLater cmp x (y # ys) = (if cmp x y < 0 then y # insertLater cmp x ys else x # y # ys)"

definition sortLaterFirst :: "(jv \<Rightarrow> jv \<Rightarrow> int) \<Rightarrow> jv list \<Rightarrow> jv list" where
  "sortLaterFirst cmp xs = rev (foldl (\<lambda>done x. insertLater cmp x done) [] xs)"

fun insertEarlier :: "(jv \<Rightarrow> jv \<Rightarrow> int) \<Rightarrow> jv \<Rightarrow> jv list \<Rightarrow> jv list" where
  "insertEarlier cmp x [] = [x]"
| "insertEarlier cmp x (y # ys) = (if cmp y x > 0 then y # insertEarlier cmp x ys else x # y # ys)"

definition sortEarlierFirst :: "(jv \<Rightarrow> jv \<Rightarrow> int) \<Rightarrow> jv list \<Rightarrow> jv list" where
  "sortEarlierFirst cmp xs = rev (foldl (\<lambda>done x. insertEarlier cmp x done) [] xs)"

section \<open>Evaluation\<close>

text \<open>The definitions unfolded to evaluate the program on the example data.\<close>

lemmas eval_defs =
  savePicgoConfig_def getRawData_def lodash_set_def lodash_get_def castPath_def hasOwn_def
  own_def member_def unsafeKey_def arrayIndex_def digitOf_def getPicgoConfig_def
  emptyHelper_def exampleEnv_def objectAssign_def getPicBeds_def getVisiablePicBeds_def
  picBedEntry_def githubFirst_def hiddenHelper_def twoProfiles_def
  selectUploaderConfig_def getUploaderConfigList_def
  upgradeUploaderConfig_def completeUploaderMetaConfig_def arrayFindById_def
  updateUploaderConfig_def deleteUploaderConfig_def changeCurrentUploader_def firstOf_def
  legacyHelper_def legacyWithId_def defaultIdMatches_def threeProfiles_def Let_def
  sortLaterFirst_def sortEarlierFirst_def

section \<open>Facts about paths, \<open>get\<close> and \<open>set\<close>\<close>

lemma bindE_Inr_iff: "bindE m f = Inr y \<longleftrightarrow> (\<exists>x. m = Inr x \<and> f x = Inr y)"
  by (cases m) (simp_all add: bindE_def)

lemma bindE_Inr [simp]: "bindE (Inr x) f = f x"
  by (simp add: bindE_def)

lemma bindE_Inl [simp]: "bindE (Inl e) f = Inl e"
  by (simp add: bindE_def)

lemma splitDots_nonempty [simp]: "splitDots s \<noteq> []"
  by (induction s) (auto split: list.splits)

lemma splitDots_append: "splitDots (a @ CHR ''.'' # b) = splitDots a @ splitDots b"
proof (induction a)
  case Nil
  show ?case by simp
next
  case (Cons c cs)
  obtain w ws where ws: "splitDots cs = w # ws"
    by (cases "splitDots cs") auto
  with Cons show ?case by simp
qed

lemma splitDots_plain: "CHR ''.'' \<notin> set s \<Longrightarrow> splitDots s = [s]"
  by (induction s) auto

lemma splitDots_no_dot: "w \<in> set (splitDots s) \<Longrightarrow> CHR ''.'' \<notin> set w"
proof (induction s arbitrary: w)
  case Nil
  then show ?case by simp
next
  case (Cons c cs)
  obtain v vs where vs: "splitDots cs = v # vs"
    by (cases "splitDots cs") auto
  with Cons show ?case by (auto split: if_splits)
qed

lemma own_update_same [simp]: "own (JObj (AList.update k v ps)) k = v"
  by (simp add: own_def update_conv')

lemma own_update_other [simp]: "k' \<noteq> k \<Longrightarrow> own (JObj (AList.update k v ps)) k' = own (JObj ps) k'"
  by (simp add: own_def update_conv')

lemma baseGet_undefined [simp]: "baseGet JUndefined ks = JUndefined"
  by (cases ks) auto

lemma baseGet_empty_obj [simp]: "ks \<noteq> [] \<Longrightarrow> baseGet (JObj []) ks = JUndefined"
  by (cases ks) (auto simp: own_def)

lemma assignPath_get:
  "assignPath ps ks v = Inr ps' \<Longrightarrow> ks \<noteq> [] \<Longrightarrow> baseGet (JObj ps') ks = v"
proof (induction ps ks v arbitrary: ps' rule: assignPath.induct)
  case (1 ps v)
  then show ?case by simp
next
  case (2 ps k v)
  then show ?case by (auto split: if_splits)
next
  case (3 ps k k' ks v)
  then show ?case
    by (auto split: if_splits jv.splits simp: bindE_Inr_iff)
qed

lemma baseGet_prim:
  "\<forall>qs. c \<noteq> JObj qs \<Longrightarrow> \<forall>xs. c \<noteq> JArr xs \<Longrightarrow> bs \<noteq> [] \<Longrightarrow> baseGet c bs = JUndefined"
  by (cases bs; cases c) (auto simp: own_def)

lemma assignPath_other:
  "assignPath ps ks v = Inr ps' \<Longrightarrow> diverge ks qs \<Longrightarrow> baseGet (JObj ps') qs = baseGet (JObj ps) qs"
proof (induction ps ks v arbitrary: ps' qs rule: assignPath.induct)
  case (1 ps v)
  then show ?case by simp
next
  case (2 ps k v)
  then show ?case by (cases qs) (auto split: if_splits)
next
  case (3 ps k k' ks v)
  then obtain b bs where qs: "qs = b # bs" by (cases qs) auto
  from "3.prems"(1) have nk: "\<not> unsafeKey k" by (auto split: if_splits)
  show ?case
  proof (cases "b = k")
    case False
    with "3.prems" qs show ?thesis
      by (auto split: if_splits jv.splits simp: bindE_Inr_iff)
  next
    case True
    with "3.prems" qs have d: "diverge (k' # ks) bs" by simp
    then have bs: "bs \<noteq> []" by (cases bs) auto
    show ?thesis
    proof (cases "\<exists>q0. own (JObj ps) k = JObj q0")
      case True
      then obtain q0 where q0: "own (JObj ps) k = JObj q0" by blast
      with "3.prems"(1) nk obtain q1 where a: "assignPath q0 (k' # ks) v = Inr q1"
        and p: "ps' = AList.update k (JObj q1) ps"
        by (auto simp: bindE_Inr_iff)
      have "baseGet (JObj q1) bs = baseGet (JObj q0) bs"
        using "3.IH" nk q0 a d by blast
      then show ?thesis using qs \<open>b = k\<close> p q0 by simp
    next
      case False
      with "3.prems"(1) nk obtain q1 where a: "assignPath [] (k' # ks) v = Inr q1"
        and p: "ps' = AList.update k (JObj q1) ps" and ni: "\<not> arrayIndex k' \<noteq> None"
        and na: "\<forall>xs. own (JObj ps) k \<noteq> JArr xs"
        by (auto simp: bindE_Inr_iff split: if_splits jv.splits)
      have "baseGet (JObj q1) bs = baseGet (JObj []) bs"
        using "3.IH" nk False ni na a d by (cases "own (JObj ps) k") auto
      moreover have "baseGet (own (JObj ps) k) bs = JUndefined"
        using False na bs by (simp add: baseGet_prim)
      ultimately show ?thesis using qs \<open>b = k\<close> p bs by simp
    qed
  qed
qed

lemma assignPath_top:
  "assignPath ps ks v = Inr ps' \<Longrightarrow> ks \<noteq> [] \<Longrightarrow> \<exists>x. ps' = AList.update (hd ks) x ps"
  by (cases "(ps, ks, v)" rule: assignPath.cases)
     (auto simp: bindE_Inr_iff split: if_splits jv.splits)

lemma assignPath_keys:
  assumes "assignPath ps ks v = Inr ps'" and "ks \<noteq> []"
  shows "fst ` set ps' = insert (hd ks) (fst ` set ps)"
proof -
  from assignPath_top[OF assms] obtain x where "ps' = AList.update (hd ks) x ps" ..
  then show ?thesis by (simp add: dom_update)
qed

lemma hasOwn_keys: "hasOwn (JObj ps) k \<longleftrightarrow> k \<in> fst ` set ps"
  by (simp add: hasOwn_def map_of_eq_None_iff)

lemma castPath_Inr: "castPath d q = Inr ks \<Longrightarrow> ks = splitDots q"
  by (auto simp: castPath_def split: if_splits)

lemma lodash_set_obj:
  assumes "lodash_set (JObj ps) p v = Inr d'"
  obtains ps' where "d' = JObj ps'" and "castPath (JObj ps) p = Inr (splitDots p)"
    and "assignPath ps (splitDots p) v = Inr ps'"
  using assms by (auto simp: lodash_set_def castPath_def bindE_Inr_iff split: if_splits)

lemma castPath_after_set:
  assumes "lodash_set (JObj ps) p v = Inr d'"
  shows "castPath d' q = castPath (JObj ps) q"
proof -
  from assms obtain ps' where d': "d' = JObj ps'"
    and a: "assignPath ps (splitDots p) v = Inr ps'"
    by (rule lodash_set_obj)
  have keys: "fst ` set ps' = insert (hd (splitDots p)) (fst ` set ps)"
    using assignPath_keys[OF a] by simp
  have "hd (splitDots p) \<in> set (splitDots p)" by simp
  then have nodot: "CHR ''.'' \<notin> set (hd (splitDots p))" by (rule splitDots_no_dot)
  have "CHR ''.'' \<in> set q \<Longrightarrow> hasOwn (JObj ps') q = hasOwn (JObj ps) q"
    using keys nodot by (auto simp: hasOwn_keys)
  then show ?thesis unfolding d' castPath_def by auto
qed

lemma lodash_get_after_set:
  assumes "lodash_set (JObj ps) p v = Inr d'"
  shows "lodash_get d' p dflt = Inr (if v = JUndefined then dflt else v)"
proof -
  from assms obtain ps' where d': "d' = JObj ps'"
    and c: "castPath (JObj ps) p = Inr (splitDots p)"
    and a: "assignPath ps (splitDots p) v = Inr ps'"
    by (rule lodash_set_obj)
  have "baseGet (JObj ps') (splitDots p) = v"
    using assignPath_get[OF a] by simp
  moreover have "castPath d' p = Inr (splitDots p)"
    using castPath_after_set[OF assms] c by simp
  ultimately show ?thesis by (simp add: lodash_get_def d')
qed

lemma lodash_get_other:
  assumes "lodash_set (JObj ps) p v = Inr d'" and "diverge (splitDots p) (splitDots q)"
  shows "lodash_get d' q dflt = lodash_get (JObj ps) q dflt"
proof -
  from assms(1) obtain ps' where d': "d' = JObj ps'"
    and a: "assignPath ps (splitDots p) v = Inr ps'"
    by (rule lodash_set_obj)
  have "baseGet (JObj ps') (splitDots q) = baseGet (JObj ps) (splitDots q)"
    using assignPath_other[OF a assms(2)] .
  moreover have "castPath d' q = castPath (JObj ps) q"
    using castPath_after_set[OF assms(1)] .
  ultimately show ?thesis
    by (cases "castPath (JObj ps) q") (auto simp: lodash_get_def d' dest: castPath_Inr)
qed

lemma path_uploader [simp]: "splitDots (''uploader.'' @ x) = ''uploader'' # splitDots x"
  by simp

lemma path_picBed [simp]: "splitDots (''picBed.'' @ x) = ''picBed'' # splitDots x"
  by simp

lemma path_suffix_configList [simp]: "splitDots (x @ ''.configList'') = splitDots x @ [''configList'']"
  using splitDots_append[of x "''configList''"] by simp

lemma path_suffix_defaultId [simp]: "splitDots (x @ ''.defaultId'') = splitDots x @ [''defaultId'']"
  using splitDots_append[of x "''defaultId''"] by simp

lemma diverge_prefix [simp]: "diverge (pre @ as) (pre @ bs) = diverge as bs"
  by (induction pre) auto

lemma lodash_get_default:
  "lodash_get d p JUndefined = Inr v \<Longrightarrow> v \<noteq> JUndefined \<Longrightarrow> lodash_get d p dflt = Inr v"
  by (auto simp: lodash_get_def bindE_Inr_iff Let_def split: if_splits)

section \<open>Facts about \<open>savePicgoConfig\<close>\<close>

lemma lodash_set_keeps_obj:
  "lodash_set (JObj ps) p v = Inr d' \<Longrightarrow> \<exists>ps'. d' = JObj ps'"
  by (erule lodash_set_obj) simp






lemma savePicgoConfig_obj: "savePicgoConfig h (JObj ps) = saveEach h (JObj ps) (map fst ps)"
  by (simp add: savePicgoConfig_def getRawData_def)

lemma save2:
  assumes "savePicgoConfig h (JObj [(k1, v1), (k2, v2)]) = Inr h'" and "k1 \<noteq> k2"
    and "reactiveCfg h = JObj d"
  obtains d1 d2 where "lodash_set (JObj d) k1 v1 = Inr (JObj d1)"
    and "lodash_set (JObj d1) k2 v2 = Inr (JObj d2)"
    and "h' = h\<lparr>reactiveCfg := JObj d2, emitted := emitted h @ [(k1, v1), (k2, v2)]\<rparr>"
proof -
  from assms obtain x1 where s1: "lodash_set (JObj d) k1 v1 = Inr x1"
    by (auto simp: savePicgoConfig_obj bindE_Inr_iff own_def)
  from lodash_set_keeps_obj[OF s1] obtain d1 where x1: "x1 = JObj d1" ..
  from assms s1 x1 obtain x2 where s2: "lodash_set (JObj d1) k2 v2 = Inr x2"
    and h': "h' = h\<lparr>reactiveCfg := x2, emitted := emitted h @ [(k1, v1), (k2, v2)]\<rparr>"
    by (auto simp: savePicgoConfig_obj bindE_Inr_iff own_def)
  from lodash_set_keeps_obj[OF s2] obtain d2 where x2: "x2 = JObj d2" ..
  from s1 s2 h' x1 x2 that show thesis by blast
qed

section \<open>Where the model returns\<close>

text \<open>
  On a document that is plain at the top, \<open>set\<close> returns for every plain path whose way
  is clear, and so does \<open>savePicgoConfig\<close> for a patch of such paths in order; what it
  leaves is again plain at the top, and ways that were clear stay clear. A path that
  parts ways with all paths of a patch reads after the save what it read before.
\<close>

lemma wayClear_empty [simp]: "wayClear [] ks"
proof (cases ks)
  case Nil
  then show ?thesis by simp
next
  case (Cons k ks')
  then show ?thesis by (cases ks') (auto simp: own_def)
qed

lemma assignPath_total:
  "list_all plainKey ks \<Longrightarrow> wayClear ps ks \<Longrightarrow> \<exists>ps'. assignPath ps ks v = Inr ps'"
proof (induction ps ks v rule: assignPath.induct)
  case (1 ps v)
  then show ?case by simp
next
  case (2 ps k v)
  then show ?case by (simp add: plainKey_def)
next
  case (3 ps k k' ks v)
  from "3.prems"(1) have rest: "list_all plainKey (k' # ks)" by simp
  from "3.prems"(1) have sk: "\<not> unsafeKey k" and ik: "arrayIndex k' = None"
    by (auto simp: plainKey_def)
  show ?case
  proof (cases "own (JObj ps) k")
    case (JObj qs)
    with 3 sk rest have "\<exists>qs'. assignPath qs (k' # ks) v = Inr qs'" by simp
    with JObj sk show ?thesis by auto
  next
    case (JArr xs)
    with 3 show ?thesis by simp
  next
    case JUndefined
    with 3 sk ik rest have "\<exists>qs'. assignPath [] (k' # ks) v = Inr qs'" by simp
    with JUndefined sk ik show ?thesis by auto
  next
    case JNull
    with 3 sk ik rest have "\<exists>qs'. assignPath [] (k' # ks) v = Inr qs'" by simp
    with JNull sk ik show ?thesis by auto
  next
    case (JBool b)
    with 3 sk ik rest have "\<exists>qs'. assignPath [] (k' # ks) v = Inr qs'" by simp
    with JBool sk ik show ?thesis by auto
  next
    case (JNum n)
    with 3 sk ik rest have "\<exists>qs'. assignPath [] (k' # ks) v = Inr qs'" by simp
    with JNum sk ik show ?thesis by auto
  next
    case (JStr s)
    with 3 sk ik rest have "\<exists>qs'. assignPath [] (k' # ks) v = Inr qs'" by simp
    with JStr sk ik show ?thesis by auto
  qed
qed

lemma assignPath_wayClear:
  "assignPath ps ks v = Inr ps' \<Longrightarrow> wayClear ps qs \<Longrightarrow> \<not> properPrefix ks qs \<Longrightarrow> wayClear ps' qs"
proof (induction ps ks v arbitrary: ps' qs rule: assignPath.induct)
  case (1 ps v)
  then show ?case by simp
next
  case (2 ps k v)
  have shape: "qs = [] \<or> (\<exists>q. qs = [q]) \<or> (\<exists>q q' r. qs = q # q' # r)"
    by (cases qs; cases "tl qs") auto
  then show ?case
  proof (elim disjE exE)
    fix q q' r
    assume "qs = q # q' # r"
    with 2 show ?thesis by (auto split: if_splits)
  qed auto
next
  case (3 ps k k' ks v)
  from "3.prems"(1) have nk: "\<not> unsafeKey k" by (auto split: if_splits)
  have shape: "qs = [] \<or> (\<exists>q. qs = [q]) \<or> (\<exists>q q' r. qs = q # q' # r)"
    by (cases qs; cases "tl qs") auto
  then show ?case
  proof (elim disjE exE)
    fix q q' r
    assume qs: "qs = q # q' # r"
    show ?thesis
    proof (cases "q = k")
      case False
      with "3.prems" qs nk show ?thesis
        by (auto split: jv.splits if_splits simp: bindE_Inr_iff)
    next
      case True
      with "3.prems"(3) qs have np: "\<not> properPrefix (k' # ks) (q' # r)" by simp
      show ?thesis
      proof (cases "\<exists>q0. own (JObj ps) k = JObj q0")
        case yes: True
        then obtain q0 where q0: "own (JObj ps) k = JObj q0" by blast
        with "3.prems"(1) nk obtain q1 where a: "assignPath q0 (k' # ks) v = Inr q1"
          and p: "ps' = AList.update k (JObj q1) ps"
          by (auto simp: bindE_Inr_iff)
        from "3.prems"(2) qs True q0 have "wayClear q0 (q' # r)" by simp
        with "3.IH" nk q0 a np have "wayClear q1 (q' # r)" by blast
        then show ?thesis using qs True p by simp
      next
        case no: False
        with "3.prems"(1) nk obtain q1 where a: "assignPath [] (k' # ks) v = Inr q1"
          and p: "ps' = AList.update k (JObj q1) ps" and ni: "\<not> arrayIndex k' \<noteq> None"
          and na: "\<forall>xs. own (JObj ps) k \<noteq> JArr xs"
          by (auto simp: bindE_Inr_iff split: if_splits jv.splits)
        have "wayClear q1 (q' # r)"
          using "3.IH" nk no ni na a np by (cases "own (JObj ps) k") auto
        then show ?thesis using qs True p by simp
      qed
    qed
  qed auto
qed

lemma castPath_plain:
  "plainTop ps \<Longrightarrow> plainPath p \<Longrightarrow> castPath (JObj ps) p = Inr (splitDots p)"
  by (auto simp: castPath_def plainTop_def plainPath_def hasOwn_keys list_all_iff)

lemma lodash_set_total:
  assumes "plainTop ps" and "plainPath p" and "wayClear ps (splitDots p)"
  shows "\<exists>ps'. lodash_set (JObj ps) p v = Inr (JObj ps') \<and> plainTop ps'"
proof -
  from assms(2) have "list_all plainKey (splitDots p)" by (simp add: plainPath_def)
  from assignPath_total[OF this assms(3)] obtain ps' where
    a: "assignPath ps (splitDots p) v = Inr ps'" by blast
  have keys: "fst ` set ps' = insert (hd (splitDots p)) (fst ` set ps)"
    using assignPath_keys[OF a] by simp
  have "hd (splitDots p) \<in> set (splitDots p)" by simp
  then have "CHR ''.'' \<notin> set (hd (splitDots p))" by (rule splitDots_no_dot)
  with keys assms(1) have "plainTop ps'"
    by (auto simp: plainTop_def list_all_iff)
  moreover have "lodash_set (JObj ps) p v = Inr (JObj ps')"
    using castPath_plain[OF assms(1,2)] a by (simp add: lodash_set_def)
  ultimately show ?thesis by blast
qed

lemma lodash_set_wayClear:
  assumes "lodash_set (JObj ps) p v = Inr (JObj ps')" and "wayClear ps qs"
    and "\<not> properPrefix (splitDots p) qs"
  shows "wayClear ps' qs"
proof -
  from assms(1) have "assignPath ps (splitDots p) v = Inr ps'"
    by (rule lodash_set_obj) simp
  from assignPath_wayClear[OF this assms(2,3)] show ?thesis .
qed

lemma saveEach_total:
  "reactiveCfg h = JObj d \<Longrightarrow> plainTop d \<Longrightarrow> list_all plainPath names \<Longrightarrow>
   list_all (\<lambda>p. wayClear d (splitDots p)) names \<Longrightarrow> inOrder (map splitDots names) \<Longrightarrow>
     \<exists>h' d'. saveEach h raw names = Inr h' \<and> reactiveCfg h' = JObj d' \<and> plainTop d'"
proof (induction names arbitrary: h d)
  case Nil
  then show ?case by simp
next
  case (Cons n names)
  from Cons.prems have pn: "plainPath n" and wn: "wayClear d (splitDots n)" by simp_all
  from lodash_set_total[OF Cons.prems(2) pn wn] obtain d1 where
    s: "lodash_set (JObj d) n (own raw n) = Inr (JObj d1)" and t1: "plainTop d1" by blast
  let ?h1 = "h\<lparr>reactiveCfg := JObj d1, emitted := emitted h @ [(n, own raw n)]\<rparr>"
  have w1: "list_all (\<lambda>p. wayClear d1 (splitDots p)) names"
    using Cons.prems(4,5) lodash_set_wayClear[OF s]
    by (auto simp: list_all_iff)
  have "\<exists>h' d'. saveEach ?h1 raw names = Inr h' \<and> reactiveCfg h' = JObj d' \<and> plainTop d'"
    using Cons.prems(3,5) by (intro Cons.IH[OF _ t1 _ w1]) simp_all
  then show ?case using s Cons.prems(1) by simp
qed

lemma saveEach_wayClear:
  "saveEach h raw names = Inr h' \<Longrightarrow> reactiveCfg h = JObj d \<Longrightarrow> reactiveCfg h' = JObj d' \<Longrightarrow>
   wayClear d qs \<Longrightarrow> list_all (\<lambda>p. \<not> properPrefix (splitDots p) qs) names \<Longrightarrow> wayClear d' qs"
proof (induction names arbitrary: h d)
  case Nil
  then show ?case by simp
next
  case (Cons n names)
  from Cons.prems(1,2) obtain dm where
    s: "lodash_set (JObj d) n (own raw n) = Inr dm" and
    r: "saveEach (h\<lparr>reactiveCfg := dm, emitted := emitted h @ [(n, own raw n)]\<rparr>) raw names = Inr h'"
    by (auto simp: bindE_Inr_iff)
  from lodash_set_keeps_obj[OF s] obtain d1 where d1: "dm = JObj d1" ..
  have "wayClear d1 qs"
    using lodash_set_wayClear[OF s[unfolded d1] Cons.prems(4)] Cons.prems(5) by simp
  from Cons.IH[OF r _ Cons.prems(3) this] d1 Cons.prems(5) show ?case by simp
qed


lemma savePicgoConfig_total:
  assumes "reactiveCfg h = JObj d" and "plainTop d"
    and "list_all plainPath (map fst patch)"
    and "list_all (\<lambda>p. wayClear d (splitDots p)) (map fst patch)"
    and "inOrder (map splitDots (map fst patch))"
  shows "\<exists>h' d'. savePicgoConfig h (JObj patch) = Inr h' \<and> reactiveCfg h' = JObj d' \<and> plainTop d'"
  using saveEach_total[OF assms] by (simp add: savePicgoConfig_obj)

lemma savePicgoConfig_wayClear:
  assumes "savePicgoConfig h (JObj patch) = Inr h'" and "reactiveCfg h = JObj d"
    and "reactiveCfg h' = JObj d'" and "wayClear d qs"
    and "list_all (\<lambda>p. \<not> properPrefix (splitDots p) qs) (map fst patch)"
  shows "wayClear d' qs"
  using assms(1) saveEach_wayClear[OF _ assms(2-5)] by (simp add: savePicgoConfig_obj)

lemma plainKey_words [simp]:
  "plainKey ''uploader''" "plainKey ''picBed''" "plainKey ''configList''" "plainKey ''defaultId''"
  by (simp_all add: plainKey_def unsafeKey_def arrayIndex_def digitOf_def)

lemma plainPath_profile:
  assumes "plainPath type"
  shows "plainPath (''uploader.'' @ type)" and "plainPath (''picBed.'' @ type)"
    and "plainPath (''uploader.'' @ type @ ''.configList'')"
    and "plainPath (''uploader.'' @ type @ ''.defaultId'')"
  using assms by (simp_all add: plainPath_def)

lemma properPrefix_prefix [simp]: "properPrefix (pre @ as) (pre @ bs) = properPrefix as bs"
  by (induction pre) auto

lemma properPrefix_irrefl [simp]: "\<not> properPrefix xs xs"
  by (induction xs) auto

lemma wayClear_butlast: "wayClear d (ks @ [k]) \<Longrightarrow> wayClear d ks"
proof (induction ks arbitrary: d)
  case Nil
  show ?case by simp
next
  case (Cons a as)
  show ?case
  proof (cases as)
    case Nil
    then show ?thesis by simp
  next
    case (Cons a' as')
    with Cons.prems Cons.IH show ?thesis by (auto split: jv.splits)
  qed
qed

lemma baseGet_array_plain:
  "list_all plainKey ks \<Longrightarrow> baseGet (JArr xs) ks = JObj c \<Longrightarrow> False"
proof (cases ks)
  case Nil
  assume "baseGet (JArr xs) ks = JObj c"
  with Nil show False by simp
next
  case (Cons k ks')
  assume p: "list_all plainKey ks" and b: "baseGet (JArr xs) ks = JObj c"
  from p Cons have "arrayIndex k = None" by (simp add: plainKey_def)
  then have "own (JArr xs) k = JUndefined \<or> (\<exists>n. own (JArr xs) k = JNum n)"
    by (simp add: own_def)
  with b Cons show False
    by (cases ks') (auto simp: own_def)
qed

lemma wayClear_stored:
  "baseGet (JObj d) ks = JObj c \<Longrightarrow> list_all plainKey ks \<Longrightarrow> wayClear d (ks @ [k])"
proof (induction ks arbitrary: d)
  case Nil
  show ?case by simp
next
  case (Cons a as)
  from Cons.prems have b: "baseGet (own (JObj d) a) as = JObj c" and p: "list_all plainKey as"
    by simp_all
  obtain a' as' where sh: "as @ [k] = a' # as'" by (cases as) auto
  show ?case
  proof (cases "own (JObj d) a")
    case (JObj qs)
    with Cons.IH[OF _ p] b have "wayClear qs (as @ [k])" by simp
    with JObj sh show ?thesis by simp
  next
    case (JArr xs)
    with b p baseGet_array_plain show ?thesis by metis
  qed (use sh in simp_all)
qed

lemma stored_is_object:
  assumes "lodash_get (JObj d) p (JObj []) = Inr cur" and "own cur ''configList'' = JArr items"
  shows "\<exists>c. cur = JObj c \<and> baseGet (JObj d) (splitDots p) = JObj c"
proof -
  from assms(2) obtain c where c: "cur = JObj c"
    by (cases cur) (auto simp: own_def arrayIndex_def digitOf_def split: option.splits if_splits)
  from assms(1) have "baseGet (JObj d) (splitDots p) = cur \<or> cur = JObj []"
    by (auto simp: lodash_get_def bindE_Inr_iff Let_def dest: castPath_Inr split: if_splits)
  with assms(2) have "baseGet (JObj d) (splitDots p) = cur" by (auto simp: own_def)
  with c show ?thesis by simp
qed

section \<open>Facts about the backend list and the profile search\<close>

lemma mapE_total: "(\<And>x. x \<in> set xs \<Longrightarrow> f x = Inr (g x)) \<Longrightarrow> mapE f xs = Inr (map g xs)"
  by (induction xs) simp_all

lemma mapE_elems:
  "mapE f xs = Inr ys \<Longrightarrow> y \<in> set ys \<Longrightarrow> \<exists>x\<in>set xs. f x = Inr y"
proof (induction xs arbitrary: ys)
  case Nil
  then show ?case by simp
next
  case (Cons x xs)
  then show ?case by (auto simp: bindE_Inr_iff)
qed

lemma picBedEntry_obj: "picBedEntry e db item = Inr y \<Longrightarrow> \<exists>ps. y = JObj ps"
  by (auto simp: picBedEntry_def bindE_Inr_iff)

lemma getPicBeds_objects:
  assumes "\<forall>f xs. set (arraySort e f xs) \<subseteq> set xs" and "getPicBeds e h = Inr beds"
    and "b \<in> set beds"
  shows "\<exists>ps. b = JObj ps"
proof -
  from assms(2) obtain db pbs where m: "mapE (picBedEntry e db) (uploaderIdList e) = Inr pbs"
    and s: "beds = arraySort e githubFirst pbs"
    by (auto simp: getPicBeds_def bindE_Inr_iff Let_def)
  from assms(1,3) s have "b \<in> set pbs" by blast
  from mapE_elems[OF m this] show ?thesis by (auto dest: picBedEntry_obj)
qed

lemma visible_filter:
  "\<forall>b\<in>set beds. \<exists>ps. b = JObj ps \<Longrightarrow>
     filter truthy (map (\<lambda>b. if truthy (own b ''visible'') then b else JNull) beds)
       = filter (\<lambda>b. truthy (own b ''visible'')) beds"
  by (induction beds) auto

lemma findById_none:
  "\<forall>item\<in>set items. item \<noteq> JUndefined \<and> item \<noteq> JNull \<and> \<not> strictEq (own item ''_id'') pid
     \<Longrightarrow> findById items pid = Inr JUndefined"
  by (induction items) (auto simp: member_def)




lemma insertEarlier_githubFirst: "insertEarlier githubFirst x acc = x # acc"
  by (cases acc) (auto simp: githubFirst_def)

lemma sortEarlierFirst_githubFirst: "sortEarlierFirst githubFirst xs = xs"
proof -
  have "foldl (\<lambda>done x. insertEarlier githubFirst x done) acc xs = rev xs @ acc" for acc
    by (induction xs arbitrary: acc) (auto simp: insertEarlier_githubFirst)
  then show ?thesis by (simp add: sortEarlierFirst_def)
qed





section \<open>Facts about the profile operations\<close>

lemma save3:
  assumes "savePicgoConfig h (JObj [(k1, v1), (k2, v2), (k3, v3)]) = Inr h'"
    and "k1 \<noteq> k2" and "k1 \<noteq> k3" and "k2 \<noteq> k3"
    and "reactiveCfg h = JObj d"
  obtains d1 d2 d3 where "lodash_set (JObj d) k1 v1 = Inr (JObj d1)"
    and "lodash_set (JObj d1) k2 v2 = Inr (JObj d2)"
    and "lodash_set (JObj d2) k3 v3 = Inr (JObj d3)"
    and "h' = h\<lparr>reactiveCfg := JObj d3, emitted := emitted h @ [(k1, v1), (k2, v2), (k3, v3)]\<rparr>"
proof -
  from assms obtain x1 where s1: "lodash_set (JObj d) k1 v1 = Inr x1"
    by (auto simp: savePicgoConfig_obj bindE_Inr_iff own_def)
  from lodash_set_keeps_obj[OF s1] obtain d1 where x1: "x1 = JObj d1" ..
  from assms s1 x1 obtain x2 where s2: "lodash_set (JObj d1) k2 v2 = Inr x2"
    by (auto simp: savePicgoConfig_obj bindE_Inr_iff own_def)
  from lodash_set_keeps_obj[OF s2] obtain d2 where x2: "x2 = JObj d2" ..
  from assms s1 x1 s2 x2 obtain x3 where s3: "lodash_set (JObj d2) k3 v3 = Inr x3"
    and h': "h' = h\<lparr>reactiveCfg := x3, emitted := emitted h @ [(k1, v1), (k2, v2), (k3, v3)]\<rparr>"
    by (auto simp: savePicgoConfig_obj bindE_Inr_iff own_def)
  from lodash_set_keeps_obj[OF s3] obtain d3 where x3: "x3 = JObj d3" ..
  from s1 s2 s3 h' x1 x2 x3 that show thesis by blast
qed

lemma own_meta:
  "own (JObj (objectAssign t [(''_id'', a), (''_createdAt'', b), (''_updatedAt'', c)])) ''_id'' = a"
  "own (JObj (objectAssign t [(''_id'', a), (''_createdAt'', b), (''_updatedAt'', c)])) ''_createdAt'' = b"
  "own (JObj (objectAssign t [(''_id'', a), (''_createdAt'', b), (''_updatedAt'', c)])) ''_updatedAt'' = c"
  by (simp_all add: objectAssign_def)

text \<open>
  What \<open>deleteUploaderConfig\<close> does on a stored list: with at most one entry nothing
  changes and the result is \<open>undefined\<close>; with two or more, and an id other than
  \<open>undefined\<close>, the entries with that id leave the stored list, \<open>defaultId\<close> and
  \<open>picBed.<type>\<close> stay as they were, and the result carries \<open>defaultId: undefined\<close>.
\<close>

lemma getUploaderConfigList_stored:
  assumes "getPicgoConfig h (''uploader.'' @ type) (JObj []) = Inr cur"
    and "own cur ''configList'' = JArr items" and "type \<noteq> []"
  shows "getUploaderConfigList e h type =
          Inr (JObj [(''configList'', JArr items),
                     (''defaultId'', if truthy (own cur ''defaultId'') then own cur ''defaultId''
                                     else JStr [])], h)"
proof -
  from assms(2) have "cur \<noteq> JUndefined" "cur \<noteq> JNull" by (auto simp: own_def)
  then have "member cur ''configList'' = Inr (JArr items)"
    using assms(2) by (simp add: member_def)
  then show ?thesis
    using assms(1,3) by (simp add: getUploaderConfigList_def Let_def)
qed

lemma deleteUploaderConfig_short_list:
  assumes "getPicgoConfig h (''uploader.'' @ type) (JObj []) = Inr cur"
    and "own cur ''configList'' = JArr items" and "length items \<le> 1"
  shows "deleteUploaderConfig e h type pid = Inr (JUndefined, h)"
proof (cases "type = []")
  case True
  then show ?thesis
    by (simp add: deleteUploaderConfig_def getUploaderConfigList_def getRawData_def own_def)
next
  case False
  from getUploaderConfigList_stored[OF assms(1,2) False] assms(3) show ?thesis
    by (simp add: deleteUploaderConfig_def getRawData_def own_def)
qed

lemma filterNotId_filter:
  "\<forall>item\<in>set items. item \<noteq> JUndefined \<and> item \<noteq> JNull \<Longrightarrow>
     filterNotId items pid = Inr (filter (\<lambda>item. \<not> strictEq (own item ''_id'') pid) items)"
  by (induction items) (auto simp: member_def)

lemma save1:
  assumes "savePicgoConfig h (JObj [(k1, v1)]) = Inr h'" and "reactiveCfg h = JObj d"
  obtains d1 where "lodash_set (JObj d) k1 v1 = Inr (JObj d1)"
    and "h' = h\<lparr>reactiveCfg := JObj d1, emitted := emitted h @ [(k1, v1)]\<rparr>"
proof -
  from assms obtain x1 where s1: "lodash_set (JObj d) k1 v1 = Inr x1"
    and h': "h' = h\<lparr>reactiveCfg := x1, emitted := emitted h @ [(k1, v1)]\<rparr>"
    by (auto simp: savePicgoConfig_obj bindE_Inr_iff own_def)
  from lodash_set_keeps_obj[OF s1] obtain d1 where x1: "x1 = JObj d1" ..
  from s1 h' x1 that show thesis by blast
qed

lemma strictEq_undefined: "strictEq pid JUndefined \<longleftrightarrow> pid = JUndefined"
  by (cases pid) auto

lemma deleteUploaderConfig_removes:
  assumes doc: "reactiveCfg h = JObj d" and top: "plainTop d"
    and ty: "type \<noteq> []" and pt: "plainPath type"
    and cur: "getPicgoConfig h (''uploader.'' @ type) (JObj []) = Inr cur"
    and lst: "own cur ''configList'' = JArr items" and two: "2 \<le> length items"
    and objs: "\<forall>item\<in>set items. item \<noteq> JUndefined \<and> item \<noteq> JNull"
    and pid: "pid \<noteq> JUndefined"
  shows "\<exists>h'. deleteUploaderConfig e h type pid
        = Inr (JObj [(''configList'', JArr (filter (\<lambda>item. \<not> strictEq (own item ''_id'') pid) items)),
                     (''defaultId'', JUndefined)], h')
    \<and> getPicgoConfig h' (''uploader.'' @ type @ ''.configList'') JUndefined
        = Inr (JArr (filter (\<lambda>item. \<not> strictEq (own item ''_id'') pid) items))
    \<and> getPicgoConfig h' (''uploader.'' @ type @ ''.defaultId'') JUndefined
        = getPicgoConfig h (''uploader.'' @ type @ ''.defaultId'') JUndefined
    \<and> getPicgoConfig h' (''picBed.'' @ type) JUndefined = getPicgoConfig h (''picBed.'' @ type) JUndefined
    \<and> emitted h' = emitted h @ [(''uploader.'' @ type @ ''.configList'',
                                  JArr (filter (\<lambda>item. \<not> strictEq (own item ''_id'') pid) items))]"
proof -
  let ?kept = "filter (\<lambda>item. \<not> strictEq (own item ''_id'') pid) items"
  let ?ku = "''uploader.'' @ type"
  let ?kc = "''uploader.'' @ type @ ''.configList''"
  let ?res = "JObj [(''configList'', JArr ?kept), (''defaultId'', JUndefined)]"
  have del: "deleteUploaderConfig e h type pid
               = bindE (savePicgoConfig h (JObj [(?kc, JArr ?kept)])) (\<lambda>h3. Inr (?res, h3))"
    using getUploaderConfigList_stored[OF cur lst ty] two pid filterNotId_filter[OF objs]
    by (simp add: deleteUploaderConfig_def getRawData_def own_def strictEq_undefined)
  from cur doc ty have lg: "lodash_get (JObj d) ?ku (JObj []) = Inr cur"
    by (simp add: getPicgoConfig_def)
  from stored_is_object[OF lg lst] obtain c where
    bc0: "baseGet (JObj d) (''uploader'' # splitDots type) = JObj c" by auto
  have pk: "list_all plainKey (''uploader'' # splitDots type)"
    using pt by (simp add: plainPath_def)
  have wc: "wayClear d (splitDots ?kc)"
    using wayClear_stored[OF bc0 pk, of "''configList''"] by simp
  have "\<exists>h' d'. savePicgoConfig h (JObj [(?kc, JArr ?kept)]) = Inr h' \<and> reactiveCfg h' = JObj d'
          \<and> plainTop d'"
    using plainPath_profile(3)[OF pt] wc by (intro savePicgoConfig_total[OF doc top]) simp_all
  then obtain h' where sv: "savePicgoConfig h (JObj [(?kc, JArr ?kept)]) = Inr h'" by blast
  from sv doc obtain d1 where s1: "lodash_set (JObj d) ?kc (JArr ?kept) = Inr (JObj d1)"
    and h': "h' = h\<lparr>reactiveCfg := JObj d1, emitted := emitted h @ [(?kc, JArr ?kept)]\<rparr>"
    by (rule save1)
  have "lodash_get (JObj d1) ?kc JUndefined = Inr (JArr ?kept)"
    using lodash_get_after_set[OF s1, of JUndefined] by simp
  moreover have "lodash_get (JObj d1) (''uploader.'' @ type @ ''.defaultId'') JUndefined
                  = lodash_get (JObj d) (''uploader.'' @ type @ ''.defaultId'') JUndefined"
    by (rule lodash_get_other[OF s1]) simp
  moreover have "lodash_get (JObj d1) (''picBed.'' @ type) JUndefined
                  = lodash_get (JObj d) (''picBed.'' @ type) JUndefined"
    by (rule lodash_get_other[OF s1]) simp
  ultimately show ?thesis
    apply (intro exI[where x=h'])
    using del sv h' doc by (simp add: getPicgoConfig_def)
qed

section \<open>A run of new profiles\<close>

text \<open>
  On a type whose list is stored, a call of \<open>updateUploaderConfig\<close> with an id that no
  entry has returns, and it leaves a state in which the next such call returns as well:
  the stored list is the one before with the new profile appended, and the new id is
  \<open>defaultId\<close>. So after a run of such calls the list has grown by one profile per call
  and \<open>defaultId\<close> is the id drawn last; the ids of the run differ from one another and
  from those stored before when \<open>newUuid\<close> never returns an identifier twice, nor one that
  a stored entry carries.
\<close>

lemma baseGet_snoc:
  "baseGet v (pre @ [k]) =
     (let c = baseGet v pre in if c = JUndefined \<or> c = JNull then JUndefined else own c k)"
  by (induction pre arbitrary: v) (auto simp: Let_def)

lemma updateUploaderConfig_new_step:
  assumes doc: "reactiveCfg h = JObj d" and top: "plainTop d"
    and ty: "type \<noteq> []" and pt: "plainPath type"
    and cur: "getPicgoConfig h (''uploader.'' @ type) (JObj []) = Inr cur"
    and lst: "own cur ''configList'' = JArr items"
    and new: "\<forall>item\<in>set items. item \<noteq> JUndefined \<and> item \<noteq> JNull \<and> \<not> strictEq (own item ''_id'') pid"
    and clearP: "wayClear d (splitDots (''picBed.'' @ type))"
  shows "\<exists>h' d' cur'. updateUploaderConfig e h type pid config = Inr h'
    \<and> savePicgoConfig (h\<lparr>uuidCalls := uuidCalls h + 1, nowCalls := nowCalls h + 2\<rparr>)
        (JObj [(''uploader.'' @ type @ ''.configList'',
                JArr (items @ [profileAt e (uuidCalls h) (nowCalls h) config])),
               (''uploader.'' @ type @ ''.defaultId'', JStr (newUuid e (uuidCalls h))),
               (''picBed.'' @ type, profileAt e (uuidCalls h) (nowCalls h) config)]) = Inr h'
    \<and> reactiveCfg h' = JObj d' \<and> plainTop d' \<and> wayClear d' (splitDots (''picBed.'' @ type))
    \<and> getPicgoConfig h' (''uploader.'' @ type) (JObj []) = Inr cur'
    \<and> own cur' ''configList'' = JArr (items @ [profileAt e (uuidCalls h) (nowCalls h) config])
    \<and> own cur' ''defaultId'' = JStr (newUuid e (uuidCalls h))
    \<and> uuidCalls h' = uuidCalls h + 1 \<and> nowCalls h' = nowCalls h + 2"
proof -
  define u where "u = newUuid e (uuidCalls h)"
  define m where "m = objectAssign
                         (objectAssign [(''_configName'', JStr ''Default'')] (trimValues e config))
                         [(''_id'', JStr u),
                          (''_createdAt'', JNum (dateNow e (nowCalls h))),
                          (''_updatedAt'', JNum (dateNow e (nowCalls h + 1)))]"
  define h2 where "h2 = h\<lparr>uuidCalls := uuidCalls h + 1, nowCalls := nowCalls h + 2\<rparr>"
  let ?p = "JObj m"
  let ?ku = "''uploader.'' @ type"
  let ?kc = "''uploader.'' @ type @ ''.configList''"
  let ?kd = "''uploader.'' @ type @ ''.defaultId''"
  let ?kp = "''picBed.'' @ type"
  let ?pre = "''uploader'' # splitDots type"
  let ?patch = "[(?kc, JArr (items @ [?p])), (?kd, JStr u), (?kp, ?p)]"
  have p: "profileAt e (uuidCalls h) (nowCalls h) config = ?p"
    by (simp add: profileAt_def m_def u_def)
  have pid: "own ?p ''_id'' = JStr u"
    unfolding m_def by (rule own_meta)
  have cm: "completeUploaderMetaConfig e h config = (m, h2)"
    by (simp add: completeUploaderMetaConfig_def m_def u_def h2_def)
  have d2: "reactiveCfg h2 = JObj d" using doc by (simp add: h2_def)
  have rd: "getUploaderConfigList e h type
          = Inr (JObj [(''configList'', JArr items),
                       (''defaultId'', if truthy (own cur ''defaultId'') then own cur ''defaultId''
                                       else JStr [])], h)"
    by (rule getUploaderConfigList_stored[OF cur lst ty])
  have fnd: "arrayFindById (JArr items) pid = Inr JUndefined"
    using findById_none[OF new] by (simp add: arrayFindById_def)
  have upd: "updateUploaderConfig e h type pid config = savePicgoConfig h2 (JObj ?patch)"
    using rd fnd cm pid
    by (simp add: updateUploaderConfig_def getRawData_def Let_def own_def[of "JObj [(''configList'', JArr items), _]"])
  from cur doc have lg: "lodash_get (JObj d) ?ku (JObj []) = Inr cur"
    using ty by (simp add: getPicgoConfig_def)
  from stored_is_object[OF lg lst] obtain c where c: "cur = JObj c"
    and bc0: "baseGet (JObj d) ?pre = JObj c" by auto
  have pk: "list_all plainKey ?pre" using pt by (simp add: plainPath_def)
  have wc: "wayClear d (?pre @ [''configList''])" and wd: "wayClear d (?pre @ [''defaultId''])"
    using wayClear_stored[OF bc0 pk] by simp_all
  have plain: "list_all plainPath (map fst ?patch)"
    using plainPath_profile[OF pt] by simp
  have clear: "list_all (\<lambda>p. wayClear d (splitDots p)) (map fst ?patch)"
    using wc wd clearP by simp
  have order: "inOrder (map splitDots (map fst ?patch))"
    using properPrefix_prefix[of ?pre "[''configList'']" "[''defaultId'']"] by simp
  from savePicgoConfig_total[OF d2 top plain clear order] obtain h' d' where
    sv: "savePicgoConfig h2 (JObj ?patch) = Inr h'" and d': "reactiveCfg h' = JObj d'"
    and top': "plainTop d'" by blast
  have clear': "wayClear d' (splitDots ?kp)"
    by (rule savePicgoConfig_wayClear[OF sv d2 d' clearP]) simp
  from sv obtain e1 e2 e3 where
    s1: "lodash_set (JObj d) ?kc (JArr (items @ [?p])) = Inr (JObj e1)" and
    s2: "lodash_set (JObj e1) ?kd (JStr u) = Inr (JObj e2)" and
    s3: "lodash_set (JObj e2) ?kp ?p = Inr (JObj e3)" and
    h': "h' = h2\<lparr>reactiveCfg := JObj e3,
                  emitted := emitted h2 @ [(?kc, JArr (items @ [?p])), (?kd, JStr u), (?kp, ?p)]\<rparr>"
    by (rule save3[OF _ _ _ _ d2]) auto
  from s1 obtain a1 where a1: "assignPath d (splitDots ?kc) (JArr (items @ [?p])) = Inr e1"
    by (rule lodash_set_obj) simp
  from s2 obtain a2: "assignPath e1 (splitDots ?kd) (JStr u) = Inr e2"
    by (rule lodash_set_obj) simp
  from s3 obtain a3: "assignPath e2 (splitDots ?kp) ?p = Inr e3"
    by (rule lodash_set_obj) simp
  have bc: "baseGet (JObj e3) (?pre @ [''configList'']) = JArr (items @ [?p])"
  proof -
    have "baseGet (JObj e3) (?pre @ [''configList'']) = baseGet (JObj e2) (?pre @ [''configList''])"
      using assignPath_other[OF a3, of "?pre @ [''configList'']"] by simp
    also have "\<dots> = baseGet (JObj e1) (?pre @ [''configList''])"
      using assignPath_other[OF a2, of "?pre @ [''configList'']"] by simp
    also have "\<dots> = JArr (items @ [?p])"
      using assignPath_get[OF a1] by simp
    finally show ?thesis .
  qed
  have bd: "baseGet (JObj e3) (?pre @ [''defaultId'']) = JStr u"
  proof -
    have "baseGet (JObj e3) (?pre @ [''defaultId'']) = baseGet (JObj e2) (?pre @ [''defaultId''])"
      using assignPath_other[OF a3, of "?pre @ [''defaultId'']"] by simp
    also have "\<dots> = JStr u"
      using assignPath_get[OF a2] by simp
    finally show ?thesis .
  qed
  define cur' where "cur' = baseGet (JObj e3) ?pre"
  from bc have cn: "cur' \<noteq> JUndefined" "cur' \<noteq> JNull" and cc: "own cur' ''configList'' = JArr (items @ [?p])"
    unfolding cur'_def baseGet_snoc Let_def by (auto split: if_splits)
  from bd cn have cd: "own cur' ''defaultId'' = JStr u"
    unfolding cur'_def baseGet_snoc Let_def by (auto split: if_splits)
  from h' d' have e3: "d' = e3" by simp
  have cp: "castPath (JObj e3) ?ku = Inr (splitDots ?ku)"
    using castPath_plain[OF top' plainPath_profile(1)[OF pt]] e3 by simp
  have g: "getPicgoConfig h' ?ku (JObj []) = Inr cur'"
    using cp cn h' by (simp add: getPicgoConfig_def lodash_get_def cur'_def Let_def)
  show ?thesis
    apply (rule exI[where x=h'], rule exI[where x=d'], rule exI[where x=cur'])
    unfolding p
    using upd sv d' top' clear' g cc cd h'
    by (simp add: h2_def u_def)
qed

lemma profileAt_id: "own (profileAt e u n config) ''_id'' = JStr (newUuid e u)"
  unfolding profileAt_def by (rule own_meta)

lemma length_newProfiles [simp]: "length (newProfiles e u n configs) = length configs"
  by (induction configs arbitrary: u n) auto

lemma newProfiles_ids:
  "map (\<lambda>p. own p ''_id'') (newProfiles e u n configs)
     = map (\<lambda>i. JStr (newUuid e i)) [u ..< u + length configs]"
proof (induction configs arbitrary: u n)
  case Nil
  show ?case by simp
next
  case (Cons c cs)
  have "[u ..< u + length (c # cs)] = u # [Suc u ..< Suc u + length cs]"
    by (simp add: upt_rec)
  with Cons[of "u + 1" "n + 2"] show ?case by (simp add: profileAt_id)
qed

lemma newProfiles_unique:
  assumes "inj (newUuid e)" and "distinct (map (\<lambda>x. own x ''_id'') items)"
    and "\<forall>n. \<forall>item\<in>set items. own item ''_id'' \<noteq> JStr (newUuid e n)"
  shows "distinct (map (\<lambda>x. own x ''_id'') (items @ newProfiles e u n configs))"
proof -
  have "inj (\<lambda>i. JStr (newUuid e i))"
    using assms(1) by (auto simp: inj_def)
  then have "distinct (map (\<lambda>i. JStr (newUuid e i)) [u ..< u + length configs])"
    by (simp add: distinct_map inj_on_def inj_def)
  with assms(2,3) show ?thesis
    by (auto simp: newProfiles_ids)
qed

lemma updateAll_new:
  assumes doc: "reactiveCfg h = JObj d" and top: "plainTop d"
    and ty: "type \<noteq> []" and pt: "plainPath type"
    and cur: "getPicgoConfig h (''uploader.'' @ type) (JObj []) = Inr cur"
    and lst: "own cur ''configList'' = JArr items"
    and objs: "\<forall>item\<in>set items. item \<noteq> JUndefined \<and> item \<noteq> JNull"
    and clearP: "wayClear d (splitDots (''picBed.'' @ type))"
    and new: "\<forall>(pid, config)\<in>set calls.
                (\<forall>item\<in>set items. \<not> strictEq (own item ''_id'') pid)
              \<and> (\<forall>n. \<not> strictEq (JStr (newUuid e n)) pid)"
  shows "\<exists>h' cur'. updateAll e h type calls = Inr h'
    \<and> getPicgoConfig h' (''uploader.'' @ type) (JObj []) = Inr cur'
    \<and> own cur' ''configList''
        = JArr (items @ newProfiles e (uuidCalls h) (nowCalls h) (map snd calls))
    \<and> (calls \<noteq> [] \<longrightarrow> own cur' ''defaultId'' = JStr (newUuid e (uuidCalls h + length calls - 1)))
    \<and> uuidCalls h' = uuidCalls h + length calls"
  using doc top cur lst objs clearP new
proof (induction calls arbitrary: h d cur items)
  case Nil
  then show ?case by auto
next
  case (Cons call rest)
  obtain pid config where call: "call = (pid, config)" by (cases call)
  let ?p = "profileAt e (uuidCalls h) (nowCalls h) config"
  have new1: "\<forall>item\<in>set items. item \<noteq> JUndefined \<and> item \<noteq> JNull \<and> \<not> strictEq (own item ''_id'') pid"
    using Cons.prems(5,7) call by auto
  from updateUploaderConfig_new_step[OF Cons.prems(1,2) ty pt Cons.prems(3,4) new1 Cons.prems(6),
        of e config]
  obtain h1 d1 cur1 where
    st: "updateUploaderConfig e h type pid config = Inr h1" and
    d1: "reactiveCfg h1 = JObj d1" and top1: "plainTop d1" and
    cl1: "wayClear d1 (splitDots (''picBed.'' @ type))" and
    cur1: "getPicgoConfig h1 (''uploader.'' @ type) (JObj []) = Inr cur1" and
    lst1: "own cur1 ''configList'' = JArr (items @ [?p])" and
    def1: "own cur1 ''defaultId'' = JStr (newUuid e (uuidCalls h))" and
    cnt: "uuidCalls h1 = uuidCalls h + 1" "nowCalls h1 = nowCalls h + 2"
    by blast
  have objs1: "\<forall>item\<in>set (items @ [?p]). item \<noteq> JUndefined \<and> item \<noteq> JNull"
    using Cons.prems(5) by (auto simp: profileAt_def)
  have new2: "\<forall>(pid, config)\<in>set rest.
                (\<forall>item\<in>set (items @ [?p]). \<not> strictEq (own item ''_id'') pid)
              \<and> (\<forall>n. \<not> strictEq (JStr (newUuid e n)) pid)"
    using Cons.prems(7) by (auto simp: profileAt_id)
  from Cons.IH[OF d1 top1 cur1 lst1 objs1 cl1 new2] obtain h' cur' where
    run: "updateAll e h1 type rest = Inr h'" and
    c': "getPicgoConfig h' (''uploader.'' @ type) (JObj []) = Inr cur'" and
    l': "own cur' ''configList''
        = JArr ((items @ [?p]) @ newProfiles e (uuidCalls h1) (nowCalls h1) (map snd rest))" and
    df': "rest \<noteq> [] \<longrightarrow> own cur' ''defaultId'' = JStr (newUuid e (uuidCalls h1 + length rest - 1))" and
    ct': "uuidCalls h' = uuidCalls h1 + length rest"
    by blast
  have dfl: "own cur' ''defaultId'' = JStr (newUuid e (uuidCalls h + length (call # rest) - 1))"
  proof (cases "rest = []")
    case True
    with run c' cur1 def1 show ?thesis by simp
  next
    case False
    with df' cnt show ?thesis by (cases rest) simp_all
  qed
  show ?case
    apply (rule exI[where x=h'], rule exI[where x=cur'])
    using st run c' l' dfl ct' cnt call by simp
qed

section \<open>The lazy migration\<close>

text \<open>
  For a type with no \<open>configList\<close> and a legacy object under \<open>picBed.<type>\<close>,
  \<open>getUploaderConfigList\<close> returns: its one profile is the legacy object as it is, with
  every field and value, \<open>defaultId\<close> is whatever that object has as \<open>_id\<close>, the list and
  the profile are stored and announced, and an identifier and two timestamps are drawn
  exactly when the object has no \<open>_id\<close>; they do not reach the profile (C4). A legacy
  object that has an \<open>_id\<close> keeps it, by the guard \<open>if (!uploaderConfig._id)\<close>.
\<close>

lemma getUploaderConfigList_migrates_legacy:
  assumes doc: "reactiveCfg h = JObj d" and top: "plainTop d"
    and ty: "type \<noteq> []" and pt: "plainPath type"
    and cur: "getPicgoConfig h (''uploader.'' @ type) (JObj []) = Inr cur"
    and nn: "cur \<noteq> JNull" and nolist: "\<not> truthy (own cur ''configList'')"
    and legacy: "getPicgoConfig h (''picBed.'' @ type) JUndefined = Inr (JObj legacy)"
    and clearU: "wayClear d (splitDots (''uploader.'' @ type))"
  shows "\<exists>h'. getUploaderConfigList e h type
                = Inr (JObj [(''configList'', JArr [JObj legacy]),
                             (''defaultId'', own (JObj legacy) ''_id'')], h')
    \<and> getPicgoConfig h' (''uploader.'' @ type) JUndefined
        = Inr (JObj [(''configList'', JArr [JObj legacy]), (''defaultId'', own (JObj legacy) ''_id'')])
    \<and> getPicgoConfig h' (''picBed.'' @ type) JUndefined = Inr (JObj legacy)
    \<and> emitted h' = emitted h @
        [(''uploader.'' @ type,
          JObj [(''configList'', JArr [JObj legacy]), (''defaultId'', own (JObj legacy) ''_id'')]),
         (''picBed.'' @ type, JObj legacy)]
    \<and> uuidCalls h' = (if truthy (own (JObj legacy) ''_id'') then uuidCalls h else uuidCalls h + 1)
    \<and> nowCalls h' = (if truthy (own (JObj legacy) ''_id'') then nowCalls h else nowCalls h + 2)"
proof -
  let ?L = "JObj legacy"
  let ?i = "own ?L ''_id''"
  let ?U = "JObj [(''configList'', JArr [?L]), (''defaultId'', ?i)]"
  let ?ku = "''uploader.'' @ type"
  let ?kp = "''picBed.'' @ type"
  let ?patch = "[(?ku, ?U), (?kp, ?L)]"
  from cur ty have "cur \<noteq> JUndefined"
    by (auto simp: getPicgoConfig_def lodash_get_def bindE_Inr_iff Let_def split: if_splits)
  with nn have mem: "member cur ''configList'' = Inr (own cur ''configList'')"
    by (simp add: member_def)
  have legacy': "getPicgoConfig h ?kp (JObj []) = Inr ?L"
    using legacy by (auto simp: getPicgoConfig_def intro: lodash_get_default)
  define hx where "hx = (if \<not> truthy ?i then snd (completeUploaderMetaConfig e h ?L) else h)"
  have hx: "reactiveCfg hx = JObj d" "emitted hx = emitted h"
    "uuidCalls hx = (if truthy ?i then uuidCalls h else uuidCalls h + 1)"
    "nowCalls hx = (if truthy ?i then nowCalls h else nowCalls h + 2)"
    by (simp_all add: hx_def completeUploaderMetaConfig_def doc)
  have up: "upgradeUploaderConfig e h type
              = bindE (savePicgoConfig hx (JObj ?patch)) (\<lambda>h2. Inr (?U, h2))"
    using legacy legacy'
    by (simp add: upgradeUploaderConfig_def member_def Let_def hx_def split: prod.splits)
  have gl: "getUploaderConfigList e h type
              = bindE (savePicgoConfig hx (JObj ?patch)) (\<lambda>h2. Inr (?U, h2))"
    using ty cur mem nolist up
    by (cases "savePicgoConfig hx (JObj ?patch)")
       (simp_all add: getUploaderConfigList_def Let_def own_def[of ?U])
  have "lodash_get (JObj d) ?kp JUndefined = Inr ?L"
    using legacy doc by (simp add: getPicgoConfig_def)
  then have "baseGet (JObj d) (splitDots ?kp) = ?L"
    by (auto simp: lodash_get_def bindE_Inr_iff Let_def dest: castPath_Inr split: if_splits)
  moreover have "list_all plainKey (splitDots ?kp)" using pt by (simp add: plainPath_def)
  ultimately have "wayClear d (splitDots ?kp @ [''x''])" by (rule wayClear_stored)
  then have clearP: "wayClear d (splitDots ?kp)" by (rule wayClear_butlast)
  have plain: "list_all plainPath (map fst ?patch)"
    using plainPath_profile[OF pt] by simp
  have clear: "list_all (\<lambda>p. wayClear d (splitDots p)) (map fst ?patch)"
    using clearU clearP by simp
  have order: "inOrder (map splitDots (map fst ?patch))" by simp
  from savePicgoConfig_total[OF hx(1) top plain clear order] obtain h' where
    sv: "savePicgoConfig hx (JObj ?patch) = Inr h'" by blast
  from sv obtain d1 d2 where
    s1: "lodash_set (JObj d) ?ku ?U = Inr (JObj d1)" and
    s2: "lodash_set (JObj d1) ?kp ?L = Inr (JObj d2)" and
    h': "h' = hx\<lparr>reactiveCfg := JObj d2, emitted := emitted hx @ [(?ku, ?U), (?kp, ?L)]\<rparr>"
    by (rule save2[OF _ _ hx(1)]) auto
  have g1: "lodash_get (JObj d2) ?ku JUndefined = Inr ?U"
  proof -
    have "lodash_get (JObj d2) ?ku JUndefined = lodash_get (JObj d1) ?ku JUndefined"
      by (rule lodash_get_other[OF s2]) simp
    also have "\<dots> = Inr ?U"
      using lodash_get_after_set[OF s1, of JUndefined] by simp
    finally show ?thesis .
  qed
  have g2: "lodash_get (JObj d2) ?kp JUndefined = Inr ?L"
    using lodash_get_after_set[OF s2, of JUndefined] by simp
  show ?thesis
    apply (rule exI[where x=h'])
    using gl sv g1 g2 h' hx by (simp add: getPicgoConfig_def)
qed

lemma getUploaderConfigList_keeps_legacy_id:
  "getUploaderConfigList exampleEnv legacyWithId ''github''
     = Inr (JObj [(''configList'', JArr [JObj [(''_id'', JStr ''old''), (''repo'', JStr ''r'')]]),
                  (''defaultId'', JStr ''old'')],
            \<lparr>reactiveCfg = JObj
               [(''picBed'', JObj [(''github'', JObj [(''_id'', JStr ''old''), (''repo'', JStr ''r'')])]),
                (''uploader'', JObj [(''github'', JObj
                   [(''configList'', JArr [JObj [(''_id'', JStr ''old''), (''repo'', JStr ''r'')]]),
                    (''defaultId'', JStr ''old'')])])],
             emitted =
               [(''uploader.github'', JObj
                   [(''configList'', JArr [JObj [(''_id'', JStr ''old''), (''repo'', JStr ''r'')]]),
                    (''defaultId'', JStr ''old'')]),
                (''picBed.github'', JObj [(''_id'', JStr ''old''), (''repo'', JStr ''r'')])],
             uuidCalls = 0, nowCalls = 0\<rparr>)"
  by (simp add: eval_defs)

section \<open>Where only the model gives up\<close>

text \<open>
  Reading and saving never throw: when \<open>getPicgoConfig\<close> or \<open>savePicgoConfig\<close> has no
  result here, it is for a path or a container outside the model.
\<close>

lemma bindE_Inl_iff: "bindE m f = Inl x \<longleftrightarrow> m = Inl x \<or> (\<exists>y. m = Inr y \<and> f y = Inl x)"
  by (cases m) (simp_all add: bindE_def)

lemma assignPath_error: "assignPath ps ks v = Inl x \<Longrightarrow> x = Unmodelled"
  by (induction ps ks v rule: assignPath.induct)
     (auto simp: bindE_Inl_iff split: if_splits jv.splits)

lemma lodash_set_error: "lodash_set d p v = Inl x \<Longrightarrow> x = Unmodelled"
  by (auto simp: lodash_set_def castPath_def bindE_Inl_iff split: jv.splits if_splits
           dest: assignPath_error)

lemma saveEach_error: "saveEach h raw names = Inl x \<Longrightarrow> x = Unmodelled"
  by (induction names arbitrary: h) (auto simp: bindE_Inl_iff dest: lodash_set_error)

lemma savePicgoConfig_error: "savePicgoConfig h patch = Inl x \<Longrightarrow> x = Unmodelled"
  by (auto simp: savePicgoConfig_def split: if_splits jv.splits dest: saveEach_error)

lemma lodash_get_error: "lodash_get d p dflt = Inl x \<Longrightarrow> x = Unmodelled"
  by (auto simp: lodash_get_def castPath_def bindE_Inl_iff Let_def split: if_splits)

section \<open>The claims\<close>

subsection \<open>C1: \<open>defaultId\<close> names exactly one entry\<close>

text \<open>
  C1. The invariant is not preserved. \<open>updateUploaderConfig\<close> takes the current default
  from \<open>uploaderConfig.ddefaultId\<close>, a property that \<open>getUploaderConfigList\<close> never
  returns, so on the merge path it saves \<open>undefined\<close> as \<open>defaultId\<close>: with the two
  profiles \<open>a\<close> (the default) and \<open>b\<close>, editing \<open>a\<close> leaves a list of two entries and
  no default. (\<open>deleteUploaderConfig\<close> reads the same property; see C2.)
\<close>

theorem updateUploaderConfig_drops_defaultId:
  "defaultIdMatches (own (own (reactiveCfg twoProfiles) ''uploader'') ''github'')
   \<and> updateUploaderConfig exampleEnv twoProfiles ''github'' (JStr ''a'') (JObj [(''repo'', JStr ''r9'')])
     = Inr \<lparr>reactiveCfg = JObj
              [(''uploader'', JObj [(''github'', JObj
                  [(''configList'', JArr [JObj [(''_id'', JStr ''a''), (''repo'', JStr ''r9''),
                                               (''_updatedAt'', JNum 1000)],
                                         JObj [(''_id'', JStr ''b''), (''repo'', JStr ''r2'')]]),
                   (''defaultId'', JUndefined)])]),
               (''picBed'', JObj [(''github'', JObj [(''_id'', JStr ''a''), (''repo'', JStr ''r9''),
                                                    (''_updatedAt'', JNum 1000)])])],
            emitted =
              [(''uploader.github.configList'',
                JArr [JObj [(''_id'', JStr ''a''), (''repo'', JStr ''r9''), (''_updatedAt'', JNum 1000)],
                      JObj [(''_id'', JStr ''b''), (''repo'', JStr ''r2'')]]),
               (''uploader.github.defaultId'', JUndefined),
               (''picBed.github'', JObj [(''_id'', JStr ''a''), (''repo'', JStr ''r9''),
                                        (''_updatedAt'', JNum 1000)])],
            uuidCalls = 0, nowCalls = 1\<rparr>
   \<and> \<not> defaultIdMatches
         (JObj [(''configList'', JArr [JObj [(''_id'', JStr ''a''), (''repo'', JStr ''r9''),
                                               (''_updatedAt'', JNum 1000)],
                                         JObj [(''_id'', JStr ''b''), (''repo'', JStr ''r2'')]]),
                (''defaultId'', JUndefined)])"
  by (simp add: eval_defs)

subsection \<open>C2: deleting a profile\<close>

text \<open>
  C2. Deleting the default profile does not move the default. \<open>deleteUploaderConfig\<close>
  compares the id with \<open>uploaderConfig.ddefaultId\<close>, which is \<open>undefined\<close>, so the
  branch that promotes the first remaining entry is not taken: with the profiles \<open>a\<close>
  (the default) and \<open>b\<close>, deleting \<open>a\<close> removes it from \<open>configList\<close>, but the stored
  \<open>defaultId\<close> is still \<open>a\<close>, \<open>picBed.github\<close> still holds profile \<open>a\<close>, and the
  result carries \<open>defaultId: undefined\<close>. (What does hold is
  \<open>deleteUploaderConfig_short_list\<close> and \<open>deleteUploaderConfig_removes\<close> above.)
\<close>

theorem deleteUploaderConfig_keeps_deleted_default:
  "deleteUploaderConfig exampleEnv twoProfiles ''github'' (JStr ''a'')
     = Inr (JObj [(''configList'', JArr [JObj [(''_id'', JStr ''b''), (''repo'', JStr ''r2'')]]),
                  (''defaultId'', JUndefined)],
            \<lparr>reactiveCfg = JObj
               [(''uploader'', JObj [(''github'', JObj
                   [(''configList'', JArr [JObj [(''_id'', JStr ''b''), (''repo'', JStr ''r2'')]]),
                    (''defaultId'', JStr ''a'')])]),
                (''picBed'', JObj [(''github'', JObj [(''_id'', JStr ''a''), (''repo'', JStr ''r1'')])])],
             emitted =
               [(''uploader.github.configList'',
                 JArr [JObj [(''_id'', JStr ''b''), (''repo'', JStr ''r2'')]])],
             uuidCalls = 0, nowCalls = 0\<rparr>)
   \<and> own (own (own (reactiveCfg twoProfiles) ''uploader'') ''github'') ''defaultId'' = JStr ''a''"
  by (simp add: eval_defs)

subsection \<open>C3: \<open>updateUploaderConfig\<close> with an id that no profile has\<close>




subsection \<open>C4: the lazy migration of a legacy setting\<close>

text \<open>
  C4. The migrated profile gets no identifier. For the legacy object
  \<open>{repo: "r", token: "t"}\<close> under \<open>picBed.github\<close>, \<open>getUploaderConfigList\<close> draws an
  identifier and two timestamps (\<open>completeUploaderMetaConfig\<close>), but it assigns them with
  \<open>Object.assign\<close> to the object it has read through the read-only proxy, where the
  write is discarded: the one profile returned and stored is the legacy object as it was,
  without \<open>_id\<close>, and \<open>defaultId\<close> is \<open>undefined\<close>. (What does hold is
  \<open>getUploaderConfigList_migrates_legacy\<close> above.)
\<close>

theorem getUploaderConfigList_loses_fresh_id:
  "reactiveCfg legacyHelper
     = JObj [(''picBed'', JObj [(''github'', JObj [(''repo'', JStr ''r''), (''token'', JStr ''t'')])])]
   \<and> uuidCalls legacyHelper = 0
   \<and> getUploaderConfigList exampleEnv legacyHelper ''github''
       = Inr (JObj [(''configList'', JArr [JObj [(''repo'', JStr ''r''), (''token'', JStr ''t'')]]),
                    (''defaultId'', JUndefined)],
              \<lparr>reactiveCfg = JObj
                 [(''picBed'', JObj [(''github'', JObj [(''repo'', JStr ''r''), (''token'', JStr ''t'')])]),
                  (''uploader'', JObj [(''github'', JObj
                     [(''configList'', JArr [JObj [(''repo'', JStr ''r''), (''token'', JStr ''t'')]]),
                      (''defaultId'', JUndefined)])])],
               emitted =
                 [(''uploader.github'', JObj
                     [(''configList'', JArr [JObj [(''repo'', JStr ''r''), (''token'', JStr ''t'')]]),
                      (''defaultId'', JUndefined)]),
                  (''picBed.github'', JObj [(''repo'', JStr ''r''), (''token'', JStr ''t'')])],
               uuidCalls = 1, nowCalls = 2\<rparr>)
   \<and> own (JObj [(''repo'', JStr ''r''), (''token'', JStr ''t'')]) ''_id'' = JUndefined"
  by (simp add: eval_defs)

subsection \<open>C5: \<open>savePicgoConfig\<close> sets each path and emits one event per path, in order\<close>



subsection \<open>C6: the visible backend types are never empty\<close>

text \<open>
  C6. Whenever the full backend list is available (\<open>sort\<close> returning elements of the
  array it was given), \<open>getVisiablePicBeds\<close> returns: its result is the list of the
  entries whose \<open>visible\<close> flag is truthy, in the order of the full list, or, when there
  is none, the single entry \<open>{type: "smms", name: "SM.MS"}\<close>; in both cases it is not
  empty.
\<close>

theorem getVisiablePicBeds_nonempty:
  assumes "\<forall>f xs. set (arraySort e f xs) \<subseteq> set xs" and "getPicBeds e h = Inr beds"
  shows "let visible = filter (\<lambda>b. truthy (own b ''visible'')) beds;
             r = (if visible = [] then [JObj [(''type'', JStr ''smms''), (''name'', JStr ''SM.MS'')]]
                  else visible)
         in getVisiablePicBeds e h = Inr r \<and> r \<noteq> []"
proof -
  let ?pick = "\<lambda>b. if truthy (own b ''visible'') then b else JNull"
  have obj: "\<And>b. b \<in> set beds \<Longrightarrow> \<exists>ps. b = JObj ps"
    using getPicBeds_objects[OF assms] by blast
  have "mapE (\<lambda>item. bindE (member item ''visible'')
                (\<lambda>v. Inr (if truthy v then item else JNull))) beds = Inr (map ?pick beds)"
  proof (rule mapE_total)
    fix b assume "b \<in> set beds"
    then obtain ps where "b = JObj ps" using obj by blast
    then show "bindE (member b ''visible'') (\<lambda>v. Inr (if truthy v then b else JNull)) = Inr (?pick b)"
      by (simp add: member_def)
  qed
  moreover have "filter truthy (map ?pick beds) = filter (\<lambda>b. truthy (own b ''visible'')) beds"
    using obj by (intro visible_filter) blast
  ultimately show ?thesis using assms(2)
    by (simp add: getVisiablePicBeds_def Let_def)
qed

theorem getVisiablePicBeds_nonempty_witness:
  "(\<forall>f xs. set (arraySort exampleEnv f xs) \<subseteq> set xs)
   \<and> getPicBeds exampleEnv hiddenHelper
       = Inr [JObj [(''type'', JStr ''smms''), (''name'', JStr ''smms''), (''visible'', JBool False)],
              JObj [(''type'', JStr ''github''), (''name'', JStr ''github''), (''visible'', JBool False)]]
   \<and> getVisiablePicBeds exampleEnv hiddenHelper
       = Inr [JObj [(''type'', JStr ''smms''), (''name'', JStr ''SM.MS'')]]"
proof -
  let ?beds = "[JObj [(''type'', JStr ''smms''), (''name'', JStr ''smms''), (''visible'', JBool False)],
              JObj [(''type'', JStr ''github''), (''name'', JStr ''github''), (''visible'', JBool False)]]"
  have h1: "\<forall>f xs. set (arraySort exampleEnv f xs) \<subseteq> set xs" by (simp add: exampleEnv_def)
  have h2: "getPicBeds exampleEnv hiddenHelper = Inr ?beds"
    by (simp add: eval_defs)
  from getVisiablePicBeds_nonempty[OF h1 h2] h1 h2 show ?thesis
    by (simp add: Let_def own_def)
qed

subsection \<open>C7: the order of \<open>getPicBeds\<close>\<close>




subsection \<open>C8: selecting an id that no profile has\<close>

text \<open>
  C8 as stated fails for a type that has no \<open>configList\<close> yet: reading the list migrates
  it, so on the empty document the call returns \<open>undefined\<close> but has written
  \<open>uploader.github\<close> (with a \<open>defaultId\<close>) and \<open>picBed.github\<close> and emitted two events.
\<close>

theorem selectUploaderConfig_migrates_counterexample:
  "selectUploaderConfig exampleEnv emptyHelper ''github'' (JStr ''zzz'')
     = Inr (JUndefined,
            \<lparr>reactiveCfg = JObj
               [(''uploader'', JObj [(''github'', JObj
                  [(''configList'', JArr [JObj [(''_configName'', JStr ''Default''), (''_id'', JStr ''uuid-''),
                       (''_createdAt'', JNum 1000), (''_updatedAt'', JNum 1001)]]),
                   (''defaultId'', JStr ''uuid-'')])]),
                (''picBed'', JObj [(''github'', JObj [(''_configName'', JStr ''Default''),
                       (''_id'', JStr ''uuid-''), (''_createdAt'', JNum 1000), (''_updatedAt'', JNum 1001)])])],
             emitted =
               [(''uploader.github'', JObj
                  [(''configList'', JArr [JObj [(''_configName'', JStr ''Default''), (''_id'', JStr ''uuid-''),
                       (''_createdAt'', JNum 1000), (''_updatedAt'', JNum 1001)]]),
                   (''defaultId'', JStr ''uuid-'')]),
                (''picBed.github'', JObj [(''_configName'', JStr ''Default''),
                       (''_id'', JStr ''uuid-''), (''_createdAt'', JNum 1000), (''_updatedAt'', JNum 1001)])],
             uuidCalls = 1, nowCalls = 2\<rparr>)
   \<and> reactiveCfg emptyHelper = JObj [] \<and> emitted emptyHelper = []"
  by (simp add: eval_defs selectUploaderConfig_def getUploaderConfigList_def
        upgradeUploaderConfig_def completeUploaderMetaConfig_def arrayFindById_def Let_def)


text \<open>
  C8, amended. For a type whose stored \<open>configList\<close> is an array (of values other than
  \<open>null\<close> and \<open>undefined\<close>) none of whose entries has the given id as its \<open>_id\<close>,
  \<open>selectUploaderConfig\<close> returns \<open>undefined\<close> and leaves the whole state as it was:
  the document, hence \<open>defaultId\<close> and the active \<open>picBed.<type>\<close>, and the emitted
  events.
\<close>

theorem selectUploaderConfig_unknown_id:
  assumes "getPicgoConfig h (''uploader.'' @ type) (JObj []) = Inr cur"
    and "own cur ''configList'' = JArr items"
    and "\<forall>item\<in>set items. item \<noteq> JUndefined \<and> item \<noteq> JNull \<and> \<not> strictEq (own item ''_id'') pid"
  shows "selectUploaderConfig e h type pid = Inr (JUndefined, h)"
proof (cases "type = []")
  case True
  then show ?thesis
    by (simp add: selectUploaderConfig_def getUploaderConfigList_def arrayFindById_def own_def)
next
  case False
  from assms(2) have nn: "cur \<noteq> JUndefined" "cur \<noteq> JNull" by (auto simp: own_def)
  then have m: "member cur ''configList'' = Inr (JArr items)"
    using assms(2) by (simp add: member_def)
  have "getUploaderConfigList e h type =
          Inr (JObj [(''configList'', JArr items),
                     (''defaultId'', if truthy (own cur ''defaultId'') then own cur ''defaultId'' else JStr [])], h)"
    using False assms(1) m by (simp add: getUploaderConfigList_def Let_def)
  then show ?thesis
    using findById_none[OF assms(3)]
    by (simp add: selectUploaderConfig_def arrayFindById_def own_def)
qed

theorem selectUploaderConfig_unknown_id_witness:
  "getPicgoConfig twoProfiles (''uploader.'' @ ''github'') (JObj [])
     = Inr (JObj [(''configList'', JArr [JObj [(''_id'', JStr ''a''), (''repo'', JStr ''r1'')],
                                      JObj [(''_id'', JStr ''b''), (''repo'', JStr ''r2'')]]),
               (''defaultId'', JStr ''a'')])
   \<and> selectUploaderConfig exampleEnv twoProfiles ''github'' (JStr ''zzz'') = Inr (JUndefined, twoProfiles)"
proof -
  let ?items = "[JObj [(''_id'', JStr ''a''), (''repo'', JStr ''r1'')],
                 JObj [(''_id'', JStr ''b''), (''repo'', JStr ''r2'')]]"
  let ?cur = "JObj [(''configList'', JArr ?items), (''defaultId'', JStr ''a'')]"
  have h1: "getPicgoConfig twoProfiles (''uploader.'' @ ''github'') (JObj []) = Inr ?cur"
    by (simp add: eval_defs twoProfiles_def)
  have h2: "own ?cur ''configList'' = JArr ?items" by (simp add: own_def)
  have h3: "\<forall>item\<in>set ?items. item \<noteq> JUndefined \<and> item \<noteq> JNull
              \<and> \<not> strictEq (own item ''_id'') (JStr ''zzz'')"
    by (simp add: own_def)
  from selectUploaderConfig_unknown_id[OF h1 h2 h3] h1 show ?thesis by simp
qed

subsection \<open>C9: the constructor refuses an absent context or configuration\<close>

text \<open>
  C9. Constructing the helper with an absent context throws; with a context and an absent
  configuration (\<open>undefined\<close>, \<open>null\<close>, any falsy value) it throws as well, and nothing is
  constructed; with a context and a configuration object it succeeds and holds that
  configuration.
\<close>

theorem construct_requires_ctx_and_config:
  "construct (None :: 'c option) cfg = Inl (Error ''PicGo ctx cannot be null'')
   \<and> construct (Some (c :: 'c)) cfg =
       (if truthy cfg
        then Inr (c, \<lparr>reactiveCfg = cfg, emitted = [], uuidCalls = 0, nowCalls = 0\<rparr>)
        else Inl (Error ''PicGo reactive config cannot be null''))
   \<and> \<not> truthy JUndefined \<and> \<not> truthy JNull \<and> truthy (JObj ps)"
  by (simp add: construct_def)

theorem construct_requires_ctx_and_config_witness:
  "construct (None :: unit option) (JObj []) = Inl (Error ''PicGo ctx cannot be null'')
   \<and> construct (Some ()) JUndefined = Inl (Error ''PicGo reactive config cannot be null'')
   \<and> construct (Some ()) (JObj [])
       = Inr ((), \<lparr>reactiveCfg = JObj [], emitted = [], uuidCalls = 0, nowCalls = 0\<rparr>)"
  using construct_requires_ctx_and_config[of "JObj []" "()" "[]"]
        construct_requires_ctx_and_config[of JUndefined "()" "[]"]
  by simp

subsection \<open>C10: \<open>getUploaderConfigList\<close> with an empty type\<close>

text \<open>
  C10. With the empty type string \<open>getUploaderConfigList\<close> returns
  \<open>{configList: [], defaultId: ""}\<close> whatever the document holds, and the helper's state
  (document, emitted events, identifiers and timestamps drawn) is the one it started from:
  nothing is read, migrated, written or emitted.
\<close>

theorem getUploaderConfigList_empty_type:
  "getUploaderConfigList e h [] = Inr (JObj [(''configList'', JArr []), (''defaultId'', JStr [])], h)"
  by (simp add: getUploaderConfigList_def)


end
